theory Spec2Isabelle
  imports Main "HOL-Library.Word" "HOL-Library.Sublist"
begin

section \<open>Data model (ProgramInfo.h)\<close>

text \<open>
  A qualifier variable is a \<open>uint32_t\<close> key. \<open>CVars\<close> is \<open>std::set<uint32_t>\<close>; it is
  represented by the list of its elements in iteration order (ascending, the outer-most
  level first).
\<close>

type_synonym uint32 = "32 word"
type_synonym CVars = "uint32 list"

text \<open>
  \<open>ConstraintVariable\<close> with its two subclasses \<open>PointerVariableConstraint\<close> (fields
  \<open>vars\<close>, \<open>FV\<close>, \<open>arrPresent\<close>, and the inherited \<open>Name\<close>) and
  \<open>FunctionVariableConstraint\<close> (fields \<open>returnVars\<close>, \<open>paramVars\<close>, \<open>name\<close>,
  \<open>hasproto\<close>, \<open>hasbody\<close>). A \<open>std::set<ConstraintVariable*>\<close> is the list of its
  elements in iteration order.
\<close>

datatype ConstraintVariable =
    PVConstraint (getCvars: CVars) (getFV: "ConstraintVariable option")
                 (getArrPresent: bool) (pvName: string)
  | FVConstraint (getReturnVars: "ConstraintVariable list")
                 (paramVars: "ConstraintVariable list list")
                 (fvName: string) (hasProtoType: bool) (hasBody: bool)



section \<open>Qualifier lattice and constraint language\<close>

text \<open>
  Modelled from the spec: the header Constraints.h is not among the sources. The lattice
  has four constant atoms, \<open>Ptr \<le> Arr \<le> NTArr \<le> Wild\<close>; an atom is a constant or a
  qualifier variable; a constraint is an equality, a negation or an implication.
  \<open>CS.getPtr()\<close>, \<open>CS.getArr()\<close>, \<open>CS.getWild()\<close> are \<open>ConstA Ptr\<close>, \<open>ConstA Arr\<close>,
  \<open>ConstA Wild\<close>; \<open>CS.getOrCreateVar(k)\<close> is \<open>VarAtom k\<close>; \<open>CS.createEq\<close>,
  \<open>CS.createNot\<close>, \<open>CS.createImplies\<close> are the three constructors.
\<close>

datatype ConstAtom = Ptr | Arr | NTArr | Wild
datatype Atom = ConstA ConstAtom | VarAtom uint32
datatype Constraint = Eq Atom Atom | Not Constraint | Implies Constraint Constraint

text \<open>
  Modelled from the spec: the constraint store is append-only; \<open>add(constraint)\<close>
  appends. The store is the list of the constraints added so far, oldest first.
\<close>

type_synonym Constraints = "Constraint list"

definition addConstraint :: "Constraint \<Rightarrow> Constraints \<Rightarrow> Constraints" where
  "addConstraint c CS = CS @ [c]"

text \<open>
  No function of the constraint generator reads the store: each one only adds
  constraints. So each is modelled by the list of the constraints it adds, in the order
  it adds them, and \<open>addConstraints\<close> performs the additions on a store.
\<close>

definition addConstraints :: "Constraint list \<Rightarrow> Constraints \<Rightarrow> Constraints" where
  "addConstraints cs CS = fold addConstraint cs CS"

section \<open>Constraint generation between constraint variables (ConstraintBuilder.cpp)\<close>

text \<open>
  Modelled from the spec: \<open>ConstraintVariable::constrainTo\<close> is declared in
  ProgramInfo.h (``constrain everything within this ConstraintVariable to be equal to
  C''), its body is not among the sources. For a pointer variable: every qualifier
  variable, then the nested function variable; for a function variable: the return
  variables, then the parameter variables.
\<close>

fun constrainTo :: "ConstAtom \<Rightarrow> ConstraintVariable \<Rightarrow> Constraint list" where
  "constrainTo C (PVConstraint vs fv arr n) =
     map (\<lambda>V. Eq (VarAtom V) (ConstA C)) vs @
     (case fv of None \<Rightarrow> [] | Some f \<Rightarrow> constrainTo C f)"
| "constrainTo C (FVConstraint rs ps n hp hb) =
     concat (map (\<lambda>V. constrainTo C V) rs) @
     concat (map (\<lambda>P. concat (map (\<lambda>V. constrainTo C V) P)) ps)"

lemma size_in_set: "x \<in> set xs \<Longrightarrow> size x < Suc (size_list size xs)"
  by (induction xs) auto

lemma size_in_set2: "x \<in> set P \<Longrightarrow> P \<in> set ps \<Longrightarrow> size x < Suc (size_list (size_list size) ps)"
  by (induction ps) (auto dest: size_in_set)

function constrainEq :: "ConstraintVariable \<Rightarrow> ConstraintVariable \<Rightarrow> Constraint list" where
  "constrainEq (FVConstraint r1 p1 n1 hp1 hb1) (FVConstraint r2 p2 n2 hp2 hb2) =
     concat (map (\<lambda>I. concat (map (\<lambda>J. constrainEq I J) r2)) r1) @
     (if length p1 = length p2
      then concat (map (\<lambda>(V1, V2). concat (map (\<lambda>I. concat (map (\<lambda>J. constrainEq I J) V2)) V1))
                    (zip p1 p2))
      else constrainTo Wild (FVConstraint r2 p2 n2 hp2 hb2) @
           constrainTo Wild (FVConstraint r1 p1 n1 hp1 hb1))"
| "constrainEq (PVConstraint v1 f1 a1 n1) (PVConstraint v2 f2 a2 n2) =
     (if length v1 = length v2
      then map (\<lambda>(I, J). Eq (VarAtom I) (VarAtom J)) (zip v1 v2)
      else concat (map (\<lambda>I. map (\<lambda>J. Eq (VarAtom I) (VarAtom J)) v2) v1))"
| "constrainEq (PVConstraint v1 f1 a1 n1) (FVConstraint r2 p2 n2 hp2 hb2) =
     (case f1 of
        Some FCLHS \<Rightarrow> constrainEq FCLHS (FVConstraint r2 p2 n2 hp2 hb2)
      | None \<Rightarrow> constrainTo Wild (PVConstraint v1 f1 a1 n1) @
                constrainTo Wild (FVConstraint r2 p2 n2 hp2 hb2))"
| "constrainEq (FVConstraint r1 p1 n1 hp1 hb1) (PVConstraint v2 f2 a2 n2) =
     constrainTo Wild (FVConstraint r1 p1 n1 hp1 hb1) @
     constrainTo Wild (PVConstraint v2 f2 a2 n2)"
  by pat_completeness auto
termination
proof (relation "measure (\<lambda>(a, b). size a + size b)", goal_cases)
  case 1
  show ?case by simp
next
  case (2 r1 p1 n1 hp1 hb1 r2 p2 n2 hp2 hb2 I J)
  then show ?case using size_in_set [of I r1] size_in_set [of J r2] by simp
next
  case (3 r1 p1 n1 hp1 hb1 r2 p2 n2 hp2 hb2 V x y I J)
  then have "x \<in> set p1" "y \<in> set p2" by (auto dest: set_zip_leftD set_zip_rightD)
  with 3 show ?case using size_in_set2 [of I x p1] size_in_set2 [of J y p2] by simp
next
  case (4 v1 f1 a1 n1 r2 p2 n2 hp2 hb2 x2)
  then show ?case by simp
qed

text \<open>
  The overload of \<open>constrainEq\<close> on two sets: every element of the first against every
  element of the second.
\<close>

definition constrainEqSets ::
  "ConstraintVariable list \<Rightarrow> ConstraintVariable list \<Rightarrow> Constraint list" where
  "constrainEqSets RHS LHS = concat (map (\<lambda>I. concat (map (\<lambda>J. constrainEq I J) LHS)) RHS)"

section \<open>The AST as the generator sees it\<close>

text \<open>
  The parser and its AST are external. Only what the modelled functions ask of them is
  represented: types up to the distinctions the code draws (void, pointer, array,
  typedef names), declarations as identities with a kind, expressions by their class.
\<close>

datatype CType =
    VoidTy
  | BuiltinTy string
  | PointerTy CType
  | ArrayTy CType
  | TypedefTy string CType
  | RecordTy string
  | FunctionProtoTy

text \<open>The canonical type: typedef sugar removed at the top.\<close>

fun desugar :: "CType \<Rightarrow> CType" where
  "desugar (TypedefTy n t) = desugar t"
| "desugar t = t"

definition isVoidType :: "CType \<Rightarrow> bool" where
  "isVoidType t = (desugar t = VoidTy)"

definition isPointerType :: "CType \<Rightarrow> bool" where
  "isPointerType t = (case desugar t of PointerTy p \<Rightarrow> True | _ \<Rightarrow> False)"

definition isArrayType :: "CType \<Rightarrow> bool" where
  "isArrayType t = (case desugar t of ArrayTy e \<Rightarrow> True | _ \<Rightarrow> False)"

text \<open>
  \<open>QualType::getAsString\<close>: the type as written, a typedef by its name, a pointer as its
  pointee followed by a star.
\<close>

fun getAsString :: "CType \<Rightarrow> string" where
  "getAsString VoidTy = ''void''"
| "getAsString (BuiltinTy n) = n"
| "getAsString (PointerTy (PointerTy t)) = getAsString (PointerTy t) @ ''*''"
| "getAsString (PointerTy t) = getAsString t @ '' *''"
| "getAsString (ArrayTy t) = getAsString t @ '' []''"
| "getAsString (TypedefTy n t) = n"
| "getAsString (RecordTy n) = ''struct '' @ n"
| "getAsString FunctionProtoTy = ''void ()''"

datatype Decl = FunctionDecl nat | VarDecl nat | ParmVarDecl nat | FieldDecl nat | OtherDecl nat

datatype UnaryOpcode = UO_AddrOf | UO_Deref | UO_Minus | UO_LNot
datatype UETTKind = UETT_SizeOf | UETT_AlignOf

text \<open>
  \<open>CallExpr\<close> carries the result of \<open>getCalleeDecl()\<close> (\<open>None\<close> for a null pointer) and the
  arguments. \<open>UnaryExprOrTypeTraitExpr\<close> carries its kind and, when \<open>isArgumentType()\<close>,
  the argument type.
\<close>

datatype Expr =
    IntegerLiteral int
  | StringLiteral string
  | DeclRefExpr Decl
  | ParenExpr Expr
  | UnaryOperator UnaryOpcode Expr
  | CStyleCastExpr CType Expr
  | ImplicitCastExpr CType Expr
  | CallExpr "Decl option" "Expr list"
  | UnaryExprOrTypeTraitExpr UETTKind "CType option"
  | ArraySubscriptExpr Expr Expr

fun IgnoreParens :: "Expr \<Rightarrow> Expr" where
  "IgnoreParens (ParenExpr e) = IgnoreParens e"
| "IgnoreParens e = e"

text \<open>\<open>Expr::IgnoreCasts\<close> strips casts, explicit and implicit, and nothing else.\<close>

fun IgnoreCasts :: "Expr \<Rightarrow> Expr" where
  "IgnoreCasts (CStyleCastExpr t e) = IgnoreCasts e"
| "IgnoreCasts (ImplicitCastExpr t e) = IgnoreCasts e"
| "IgnoreCasts e = e"

fun IgnoreImplicit :: "Expr \<Rightarrow> Expr" where
  "IgnoreImplicit (ImplicitCastExpr t e) = IgnoreImplicit e"
| "IgnoreImplicit e = e"

fun IgnoreImpCasts :: "Expr \<Rightarrow> Expr" where
  "IgnoreImpCasts (ImplicitCastExpr t e) = IgnoreImpCasts e"
| "IgnoreImpCasts e = e"

type_synonym SourceLocation = nat

text \<open>
  What the code asks of the \<open>ASTContext\<close> and of the declarations and expressions it
  reaches: each field is the clang query of that name.
  \<open>redecls\<close> is the redeclaration chain of a function as \<open>FD->redecls()\<close> iterates it
  (it starts with \<open>FD\<close> itself); \<open>validLoc\<close> stands for the validity of the source range
  and of the start location of a declaration.
\<close>

record ASTContext =
  getType :: "Decl \<Rightarrow> CType"
  getName :: "Decl \<Rightarrow> string"
  getInit :: "Decl \<Rightarrow> Expr option"
  isLocalVarDecl :: "Decl \<Rightarrow> bool"
  hasGlobalStorage :: "Decl \<Rightarrow> bool"
  validLoc :: "Decl \<Rightarrow> bool"
  isInSystemHeader :: "Decl \<Rightarrow> bool"
  isVariadic :: "Decl \<Rightarrow> bool"
  redecls :: "Decl \<Rightarrow> Decl list"
  doesThisDeclarationHaveABody :: "Decl \<Rightarrow> bool"
  parameters :: "Decl \<Rightarrow> Decl list"
  getParentFunctionOrMethod :: "Decl \<Rightarrow> Decl"
  hasBoundsExpr :: "Decl \<Rightarrow> bool"
  getExprType :: "Expr \<Rightarrow> CType"
  getExprLoc :: "Expr \<Rightarrow> SourceLocation"
  getLocEnd :: "Expr \<Rightarrow> SourceLocation"
  isIntegerConstantExpr :: "Expr \<Rightarrow> bool"
  isNullPointerConstant :: "Expr \<Rightarrow> bool"

text \<open>
  What the code asks of \<open>ProgramInfo\<close> besides the constraint store. The bodies of these
  methods are not among the sources, so they are fields of a record: \<open>getVariable\<close> on an
  expression and on a declaration (the Boolean is \<open>inFunctionContext\<close>), the two
  overloads of \<open>checkStructuralEquality\<close>, the comparisons \<open>isLt\<close> and \<open>isEq\<close> of
  constraint variables under the solved environment, and \<open>mkString\<close> (the Boolean is
  \<open>withName\<close>). \<open>Info.addVariable\<close> allocates the constraint variables that
  \<open>getVariable\<close> returns; the tables here are the ones after allocation.
\<close>

record ProgramInfo =
  getVariableE :: "Expr \<Rightarrow> bool \<Rightarrow> ConstraintVariable list"
  getVariableD :: "Decl \<Rightarrow> bool \<Rightarrow> ConstraintVariable list"
  checkStructuralEquality :: "ConstraintVariable list \<Rightarrow> ConstraintVariable list \<Rightarrow> CType \<Rightarrow> CType \<Rightarrow> bool"
  checkStructuralEqualityT :: "CType \<Rightarrow> CType \<Rightarrow> bool"
  isLt :: "ConstraintVariable \<Rightarrow> ConstraintVariable \<Rightarrow> bool"
  isEq :: "ConstraintVariable \<Rightarrow> ConstraintVariable \<Rightarrow> bool"
  mkString :: "ConstraintVariable \<Rightarrow> bool \<Rightarrow> string"

datatype error = NullDereference | AssertionFailure

section \<open>Constraint generator (ConstraintBuilder.cpp)\<close>

text \<open>
  The loop that the generator writes out at each place it forces a set of constraint
  variables to \<open>Wild\<close>: for every pointer variable of the set, \<open>Eq(q, Wild)\<close> for every
  qualifier variable \<open>q\<close> of it. Function variables of the set are skipped by the
  \<open>dyn_cast\<close>.
\<close>

fun eqWildCvars :: "ConstraintVariable \<Rightarrow> Constraint list" where
  "eqWildCvars (PVConstraint vs fv arr n) = map (\<lambda>J. Eq (VarAtom J) (ConstA Wild)) vs"
| "eqWildCvars (FVConstraint rs ps n hp hb) = []"

definition specialCaseVarIntros :: "ASTContext \<Rightarrow> ProgramInfo \<Rightarrow> Decl \<Rightarrow> Constraint list" where
  "specialCaseVarIntros C Info D =
     (if getAsString (getType C D) = ''va_list'' \<or> isVoidType (getType C D)
      then concat (map eqWildCvars (getVariableD Info D False))
      else [])"

text \<open>
  Modelled from the spec: \<open>ProgramInfo::addVariable\<close> is declared in ProgramInfo.h and
  called by the visitors; its body is not among the sources. By the spec it returns at
  once for a declaration whose type is neither pointer nor array, or that lies in a
  system header; otherwise it allocates the constraint variables of the declaration,
  which are the ones \<open>getVariable\<close> then returns for it, and, when the declared type is
  \<open>void *\<close> or \<open>va_list\<close>, adds \<open>Eq(q, Wild)\<close> for every qualifier variable \<open>q\<close> in
  them. The value is the list of the constraints it adds.
\<close>

definition isVoidPointerType :: "CType \<Rightarrow> bool" where
  "isVoidPointerType t = (case desugar t of PointerTy p \<Rightarrow> isVoidType p | _ \<Rightarrow> False)"

definition addVariable :: "ASTContext \<Rightarrow> ProgramInfo \<Rightarrow> Decl \<Rightarrow> Constraint list" where
  "addVariable C Info D =
     (if \<not> (isPointerType (getType C D) \<or> isArrayType (getType C D)) then []
      else if isInSystemHeader C D then []
      else if isVoidPointerType (getType C D) \<or> getAsString (getType C D) = ''va_list''
      then concat (map (constrainTo Wild) (getVariableD Info D False))
      else [])"

text \<open>
  \<open>FunctionVisitor::MyVisitVarDecl\<close>, \<open>GlobalVisitor::VisitVarDecl\<close> and
  \<open>GlobalVisitor::VisitRecordDecl\<close> with its loop over the fields: the constraints each
  adds, those of its call of \<open>Info.addVariable\<close> first. \<open>Info.seeGlobalDecl\<close> records the
  symbol for the linker. For a record, \<open>def\<close> is the result of \<open>getDefinition()\<close> and
  \<open>fileEntryValid\<close> says that its file entry exists and is valid.
\<close>

definition MyVisitVarDecl :: "ASTContext \<Rightarrow> ProgramInfo \<Rightarrow> Decl \<Rightarrow> Constraint list" where
  "MyVisitVarDecl C Info D =
     (if isLocalVarDecl C D
      then (if validLoc C D \<and> \<not> isInSystemHeader C D \<and>
               (isPointerType (getType C D) \<or> isArrayType (getType C D))
            then addVariable C Info D @ specialCaseVarIntros C Info D
            else [])
      else [])"




text \<open>
  The malloc rule inside case 4 of \<open>constrainAssign\<close>: the value of \<open>rulesFired\<close> for the
  sub-expression \<open>sub\<close> of the cast. \<open>dyn_cast<FunctionDecl>\<close> of a null callee is a null
  dereference.
\<close>

definition rulesFired ::
  "ASTContext \<Rightarrow> ProgramInfo \<Rightarrow> ConstraintVariable list \<Rightarrow> ConstraintVariable list \<Rightarrow>
   CType \<Rightarrow> CType \<Rightarrow> Expr \<Rightarrow> error + bool" where
  "rulesFired C Info V W lhsType rhsTy sub =
     (if checkStructuralEquality Info V W lhsType rhsTy
      then (case sub of
              CallExpr callee args \<Rightarrow>
                (case callee of
                   None \<Rightarrow> Inl NullDereference
                 | Some (FunctionDecl f) \<Rightarrow>
                     if getName C (FunctionDecl f) = ''malloc''
                     then (case args of
                             [] \<Rightarrow> Inr False
                           | UnaryExprOrTypeTraitExpr k (Some argTy) # rest \<Rightarrow>
                               if k = UETT_SizeOf
                               then Inr (checkStructuralEquality Info V W (PointerTy argTy) lhsType \<and>
                                         checkStructuralEquality Info V W (PointerTy argTy) rhsTy)
                               else Inr False
                           | _ \<Rightarrow> Inr False)
                     else Inr False
                 | Some other \<Rightarrow> Inr False)
            | _ \<Rightarrow> Inr False)
      else Inr False)"

text \<open>
  \<open>FunctionVisitor::constrainAssign(V, lhsType, RHS)\<close>; \<open>None\<close> is a null \<open>RHS\<close>.
\<close>

definition constrainAssign ::
  "ASTContext \<Rightarrow> ProgramInfo \<Rightarrow> ConstraintVariable list \<Rightarrow> CType \<Rightarrow> Expr option \<Rightarrow>
   error + Constraint list" where
  "constrainAssign C Info V lhsType RHS0 =
     (case RHS0 of
        None \<Rightarrow> Inr []
      | Some RHS1 \<Rightarrow>
          if length V = 0 then Inr []
          else if length (getVariableE Info RHS1 False) > 0
          then Inr (constrainEqSets V (getVariableE Info RHS1 False))
          else
            let RHS = IgnoreParens RHS1 in
            if isIntegerConstantExpr C RHS
            then (if \<not> isNullPointerConstant C RHS
                  then Inr (concat (map eqWildCvars V))
                  else Inr [])
            else
              (case RHS of
                 UnaryOperator opc sub \<Rightarrow> Inr []
               | CStyleCastExpr ty sub \<Rightarrow>
                   (case rulesFired C Info V (getVariableE Info sub False) lhsType
                           (getExprType C RHS) sub of
                      Inl e \<Rightarrow> Inl e
                    | Inr fired \<Rightarrow>
                        if fired then Inr []
                        else Inr (concat (map eqWildCvars (getVariableE Info (IgnoreCasts RHS) False)) @
                                  concat (map eqWildCvars V)))
               | _ \<Rightarrow> Inr []))"

definition constrainAssignE ::
  "ASTContext \<Rightarrow> ProgramInfo \<Rightarrow> Expr \<Rightarrow> Expr option \<Rightarrow> error + Constraint list" where
  "constrainAssignE C Info LHS RHS =
     constrainAssign C Info (getVariableE Info LHS False) (getExprType C LHS) RHS"

definition constrainAssignD ::
  "ASTContext \<Rightarrow> ProgramInfo \<Rightarrow> Decl \<Rightarrow> Expr option \<Rightarrow> error + Constraint list" where
  "constrainAssignD C Info D RHS =
     constrainAssign C Info (getVariableD Info D False) (getType C D) RHS"

text \<open>
  Running constraint-adding steps one after the other on a store; a null dereference in
  one of them ends the run.
\<close>

fun runSteps :: "(error + Constraint list) list \<Rightarrow> Constraints \<Rightarrow> error + Constraints" where
  "runSteps [] CS = Inr CS"
| "runSteps (Inl e # rest) CS = Inl e"
| "runSteps (Inr cs # rest) CS = runSteps rest (addConstraints cs CS)"

text \<open>
  \<open>FunctionVisitor::VisitDeclStmt\<close> on the declarations of a statement (all of them
  \<open>VarDecl\<close>s here) and \<open>FunctionVisitor::VisitBinAssign\<close>.
\<close>

definition VisitDeclStmt ::
  "ASTContext \<Rightarrow> ProgramInfo \<Rightarrow> Decl list \<Rightarrow> Constraints \<Rightarrow> error + Constraints" where
  "VisitDeclStmt C Info decls CS =
     runSteps (map (\<lambda>D. Inr (MyVisitVarDecl C Info D)) decls @
               map (\<lambda>D. constrainAssignD C Info D (getInit C D)) decls) CS"

definition VisitBinAssign ::
  "ASTContext \<Rightarrow> ProgramInfo \<Rightarrow> Expr \<Rightarrow> Expr \<Rightarrow> Constraints \<Rightarrow> error + Constraints" where
  "VisitBinAssign C Info LHS RHS CS = runSteps [constrainAssignE C Info LHS (Some RHS)] CS"

text \<open>
  \<open>FunctionVisitor::constrainExprFirstArr\<close> and \<open>FunctionVisitor::VisitArraySubscriptExpr\<close>
  (\<open>E->getBase()\<close> is the first sub-expression).
\<close>

fun firstArr :: "ConstraintVariable \<Rightarrow> Constraint list" where
  "firstArr (PVConstraint vs fv arr n) =
     (case vs of [] \<Rightarrow> [] | q # rest \<Rightarrow> [Eq (VarAtom q) (ConstA Arr)])"
| "firstArr (FVConstraint rs ps n hp hb) = []"

definition constrainExprFirstArr :: "ProgramInfo \<Rightarrow> Expr \<Rightarrow> Constraint list" where
  "constrainExprFirstArr Info E = concat (map firstArr (getVariableE Info E False))"

fun VisitArraySubscriptExpr :: "ProgramInfo \<Rightarrow> Expr \<Rightarrow> Constraint list" where
  "VisitArraySubscriptExpr Info (ArraySubscriptExpr base idx) = constrainExprFirstArr Info base"
| "VisitArraySubscriptExpr Info e = []"

section \<open>Solver\<close>

text \<open>
  Modelled from the spec: \<open>Constraints::solve\<close> is not among the sources. Every
  qualifier variable starts at \<open>Ptr\<close>; the constraints are processed repeatedly, each
  one only raising variables (\<open>Eq\<close> raises both ends to their maximum, \<open>Not (Eq q Ptr)\<close>
  raises \<open>q\<close> to at least \<open>Arr\<close>, \<open>Implies p q\<close> applies \<open>q\<close> when \<open>p\<close> holds under the
  current assignment), until a pass over the store changes nothing.
\<close>

fun rank :: "ConstAtom \<Rightarrow> nat" where
  "rank Ptr = 0" | "rank Arr = 1" | "rank NTArr = 2" | "rank Wild = 3"

definition max_lattice :: "ConstAtom \<Rightarrow> ConstAtom \<Rightarrow> ConstAtom" where
  "max_lattice a b = (if rank a \<le> rank b then b else a)"

type_synonym Assignment = "uint32 \<Rightarrow> ConstAtom"

fun get_const :: "Assignment \<Rightarrow> Atom \<Rightarrow> ConstAtom" where
  "get_const \<sigma> (ConstA c) = c"
| "get_const \<sigma> (VarAtom v) = \<sigma> v"

fun raise_to :: "Atom \<Rightarrow> ConstAtom \<Rightarrow> Assignment \<Rightarrow> Assignment" where
  "raise_to (VarAtom v) c \<sigma> = \<sigma>(v := max_lattice (\<sigma> v) c)"
| "raise_to (ConstA k) c \<sigma> = \<sigma>"

fun entailed :: "Assignment \<Rightarrow> Constraint \<Rightarrow> bool" where
  "entailed \<sigma> (Eq a b) \<longleftrightarrow> get_const \<sigma> a = get_const \<sigma> b"
| "entailed \<sigma> (Not c) \<longleftrightarrow> \<not> entailed \<sigma> c"
| "entailed \<sigma> (Implies p q) \<longleftrightarrow> (if entailed \<sigma> p then entailed \<sigma> q else True)"

fun apply_constraint :: "Constraint \<Rightarrow> Assignment \<Rightarrow> Assignment" where
  "apply_constraint (Eq a b) \<sigma> =
     (let m = max_lattice (get_const \<sigma> a) (get_const \<sigma> b)
      in raise_to b m (raise_to a m \<sigma>))"
| "apply_constraint (Not (Eq a (ConstA Ptr))) \<sigma> = raise_to a Arr \<sigma>"
| "apply_constraint (Not c) \<sigma> = \<sigma>"
| "apply_constraint (Implies p q) \<sigma> =
     (if entailed \<sigma> p then apply_constraint q \<sigma> else \<sigma>)"

fun atom_qvars :: "Atom \<Rightarrow> uint32 list" where
  "atom_qvars (VarAtom v) = [v]"
| "atom_qvars (ConstA c) = []"

fun qvars :: "Constraint \<Rightarrow> uint32 list" where
  "qvars (Eq a b) = atom_qvars a @ atom_qvars b"
| "qvars (Not c) = qvars c"
| "qvars (Implies p q) = qvars p @ qvars q"

definition store_qvars :: "Constraints \<Rightarrow> uint32 list" where
  "store_qvars CS = remdups (concat (map qvars CS))"

definition pass :: "Constraints \<Rightarrow> Assignment \<Rightarrow> Assignment" where
  "pass CS \<sigma> = fold apply_constraint CS \<sigma>"

definition changed :: "Constraints \<Rightarrow> Assignment \<Rightarrow> Assignment \<Rightarrow> bool" where
  "changed CS \<sigma> \<sigma>' = list_ex (\<lambda>v. \<sigma>' v \<noteq> \<sigma> v) (store_qvars CS)"

definition slack :: "Constraints \<Rightarrow> Assignment \<Rightarrow> nat" where
  "slack CS \<sigma> = sum_list (map (\<lambda>v. 3 - rank (\<sigma> v)) (store_qvars CS))"

lemma rank_le3: "rank c \<le> 3"
  by (cases c) auto

lemma rank_inj: "rank a = rank b \<Longrightarrow> a = b"
  by (cases a; cases b) auto

lemma rank_max_lattice: "rank (max_lattice a b) = max (rank a) (rank b)"
  by (simp add: max_lattice_def)

lemma raise_to_infl: "rank (\<sigma> v) \<le> rank (raise_to a c \<sigma> v)"
  by (cases a) (auto simp: rank_max_lattice)

lemma apply_constraint_infl: "rank (\<sigma> v) \<le> rank (apply_constraint c \<sigma> v)"
proof (induction c \<sigma> rule: apply_constraint.induct)
  case (1 a b \<sigma>)
  show ?case
    using raise_to_infl [of \<sigma> v a] raise_to_infl [of "raise_to a m \<sigma>" v b for m]
    by (auto simp: Let_def intro: order_trans)
qed (auto simp: raise_to_infl)

lemma pass_infl: "rank (\<sigma> v) \<le> rank (pass CS \<sigma> v)"
  unfolding pass_def
proof (induction CS arbitrary: \<sigma>)
  case (Cons c CS)
  show ?case using Cons [of "apply_constraint c \<sigma>"] apply_constraint_infl [of \<sigma> v c]
    by (auto intro: order_trans)
qed simp

lemma sum_list_strict:
  fixes f g :: "'a \<Rightarrow> nat"
  assumes "\<forall>x\<in>set xs. f x \<le> g x" "\<exists>x\<in>set xs. f x < g x"
  shows "sum_list (map f xs) < sum_list (map g xs)"
  using assms
proof (induction xs)
  case (Cons x xs)
  show ?case
  proof (cases "\<exists>y\<in>set xs. f y < g y")
    case True
    with Cons show ?thesis by (simp add: add_le_less_mono)
  next
    case False
    with Cons.prems have "f x < g x" by auto
    moreover have "sum_list (map f xs) \<le> sum_list (map g xs)"
      using Cons.prems(1) by (simp add: sum_list_mono)
    ultimately show ?thesis by simp
  qed
qed simp

lemma slack_decreases:
  assumes "changed CS \<sigma> (pass CS \<sigma>)"
  shows "slack CS (pass CS \<sigma>) < slack CS \<sigma>"
proof -
  obtain v where v: "v \<in> set (store_qvars CS)" "pass CS \<sigma> v \<noteq> \<sigma> v"
    using assms by (auto simp: changed_def list_ex_iff)
  have "rank (\<sigma> v) < rank (pass CS \<sigma> v)"
    using pass_infl [of \<sigma> v CS] v(2) rank_inj [of "\<sigma> v" "pass CS \<sigma> v"] by (cases "rank (\<sigma> v) = rank (pass CS \<sigma> v)") auto
  then have strict: "3 - rank (pass CS \<sigma> v) < 3 - rank (\<sigma> v)"
    using rank_le3 [of "pass CS \<sigma> v"] by simp
  have le: "\<forall>x\<in>set (store_qvars CS). 3 - rank (pass CS \<sigma> x) \<le> 3 - rank (\<sigma> x)"
    using pass_infl by (simp add: diff_le_mono2)
  show ?thesis unfolding slack_def
    by (rule sum_list_strict) (use le strict v(1) in auto)
qed

function solve_loop :: "Constraints \<Rightarrow> Assignment \<Rightarrow> Assignment" where
  "solve_loop CS \<sigma> =
     (let \<sigma>' = pass CS \<sigma>
      in if changed CS \<sigma> \<sigma>' then solve_loop CS \<sigma>' else \<sigma>)"
  by pat_completeness auto
termination
  by (relation "measure (\<lambda>(CS, \<sigma>). slack CS \<sigma>)") (auto simp: slack_decreases)

definition solve :: "Constraints \<Rightarrow> Assignment" where
  "solve CS = solve_loop CS (\<lambda>v. Ptr)"

section \<open>Rewrite planner helpers (CheckedCConvert.cpp)\<close>

datatype InterfaceCase = IncreaseCallers | MakeBoundary | DoNothing

text \<open>
  \<open>getHighest\<close>: \<open>None\<close> is the \<open>nullptr\<close> result. \<open>isLt\<close> and \<open>isEq\<close> are the virtual
  comparison methods declared in ProgramInfo.h; their bodies are not part of the sources
  at hand, so they are the fields of \<open>Info\<close>.
  \<open>getHighest_loop\<close> is the body of the \<open>for\<close> loop, threading the local \<open>V\<close>.
\<close>

fun getHighest_loop ::
  "ProgramInfo \<Rightarrow> ConstraintVariable option \<Rightarrow> ConstraintVariable list \<Rightarrow> ConstraintVariable option" where
  "getHighest_loop Info V [] = V"
| "getHighest_loop Info None (P # Ps) = getHighest_loop Info (Some P) Ps"
| "getHighest_loop Info (Some V) (P # Ps) =
     (if isLt Info V P \<and> \<not> isEq Info V P
      then getHighest_loop Info (Some P) Ps
      else getHighest_loop Info (Some V) Ps)"

definition getHighest ::
  "ProgramInfo \<Rightarrow> ConstraintVariable list \<Rightarrow> ConstraintVariable option" where
  "getHighest Info Vs =
     (if length Vs = 0 then None else getHighest_loop Info None Vs)"

text \<open>
  What it means for \<open>isLt\<close> to be a (strict) total order on the elements of a set, with
  \<open>isEq\<close> the equality that goes with it: irreflexive, transitive, any two distinct
  elements comparable, and elements that are \<open>isEq\<close> never \<open>isLt\<close>.
\<close>

definition total_order_on_set ::
  "ProgramInfo \<Rightarrow> ConstraintVariable list \<Rightarrow> bool" where
  "total_order_on_set Info Vs \<longleftrightarrow>
     list_all (\<lambda>x. \<not> isLt Info x x) Vs \<and>
     list_all (\<lambda>x. list_all (\<lambda>y. list_all (\<lambda>z. \<not> isLt Info x y \<or> \<not> isLt Info y z \<or> isLt Info x z) Vs) Vs) Vs \<and>
     list_all (\<lambda>x. list_all (\<lambda>y. x = y \<or> isLt Info x y \<or> isLt Info y x) Vs) Vs \<and>
     list_all (\<lambda>x. list_all (\<lambda>y. \<not> isEq Info x y \<or> \<not> isLt Info x y) Vs) Vs"

text \<open>
  \<open>FunctionDecl::hasBody(Definition)\<close>: the first declaration of the redeclaration chain
  that has a body, if any.
\<close>

definition hasBodyDecl :: "ASTContext \<Rightarrow> Decl \<Rightarrow> Decl option" where
  "hasBodyDecl C FD = find (doesThisDeclarationHaveABody C) (redecls C FD)"

text \<open>\<open>getParamDecl(i)\<close> asserts that \<open>i\<close> is in range.\<close>

definition getParamDecl :: "ASTContext \<Rightarrow> Decl \<Rightarrow> nat \<Rightarrow> error + Decl" where
  "getParamDecl C FD i =
     (if i < length (parameters C FD) then Inr (parameters C FD ! i) else Inl AssertionFailure)"

text \<open>The position of the first occurrence of \<open>D\<close> in a list, as the index loops find it.\<close>

fun indexOf :: "'a \<Rightarrow> 'a list \<Rightarrow> nat option" where
  "indexOf D [] = None"
| "indexOf D (x # xs) =
     (if D = x then Some 0 else (case indexOf D xs of None \<Rightarrow> None | Some k \<Rightarrow> Some (Suc k)))"

text \<open>
  \<open>canInterface\<close>. The two \<open>assert\<close>s and the range check of \<open>getParamDecl\<close> are
  \<open>AssertionFailure\<close>; calling \<open>isLt\<close> through a null \<open>U\<close> or on a null \<open>V\<close> is
  \<open>NullDereference\<close>.
\<close>

definition canInterface :: "ASTContext \<Rightarrow> ProgramInfo \<Rightarrow> Decl \<Rightarrow> error + InterfaceCase" where
  "canInterface C P D =
     (let FD = getParentFunctionOrMethod C D in
      if \<not> isPointerType (getType C D) then Inl AssertionFailure
      else
        (case hasBodyDecl C FD of
           None \<Rightarrow> Inr DoNothing
         | Some oFD \<Rightarrow>
             if isVariadic C FD then Inr DoNothing
             else
               (case (if oFD = FD then find (\<lambda>tD. tD \<noteq> oFD) (redecls C FD) else Some FD) of
                  None \<Rightarrow> Inr DoNothing
                | Some Declaration \<Rightarrow>
                    (case indexOf D (parameters C FD) of
                       None \<Rightarrow> Inl AssertionFailure
                     | Some i \<Rightarrow>
                         (case getParamDecl C Declaration i of
                            Inl e \<Rightarrow> Inl e
                          | Inr declParm \<Rightarrow>
                              (case getParamDecl C oFD i of
                                 Inl e \<Rightarrow> Inl e
                               | Inr defParm \<Rightarrow>
                                   (case (getHighest P (getVariableD P defParm True),
                                          getHighest P (getVariableD P declParm False)) of
                                      (Some U, Some V) \<Rightarrow>
                                        if isLt P U V then Inr MakeBoundary
                                        else Inr IncreaseCallers
                                    | _ \<Rightarrow> Inl NullDereference)))))))"

text \<open>
  The loop of \<open>RewriteConsumer::HandleTranslationUnit\<close> that plans the declaration
  rewrites. \<open>pickVars\<close> is its inner loop over the constraint variables stored for one
  location: the last pointer variable and the last function variable met are kept.
  \<open>returnTypeString\<close> is the text for a changed return type, taken from the first return
  variable. \<open>planDecl\<close> is the body of the loop for a location that resolves to the
  declaration \<open>D\<close> (with its declaration statement \<open>DS\<close>, if any); its value is what is
  inserted into \<open>rewriteThese\<close>. \<open>anyChanges\<close> (declared in ProgramInfo.h) and the
  printing of a declaration are not among the sources and are parameters.
  \<open>planRewrites\<close> runs the loop over the entries of the variable map, each with the
  declaration its location resolves to; \<open>rewriteThese\<close> is a set, so an element is
  inserted once. The planned replacements are then handed to the rewriter.
\<close>

type_synonym DAndReplace = "(Decl \<times> nat option) \<times> string"

fun pickVars ::
  "ConstraintVariable list \<Rightarrow> ConstraintVariable option \<times> ConstraintVariable option \<Rightarrow>
   ConstraintVariable option \<times> ConstraintVariable option" where
  "pickVars [] acc = acc"
| "pickVars (PVConstraint vs fv arr n # Vs) (PV, FV) =
     pickVars Vs (Some (PVConstraint vs fv arr n), FV)"
| "pickVars (FVConstraint rs ps n hp hb # Vs) (PV, FV) =
     pickVars Vs (PV, Some (FVConstraint rs ps n hp hb))"

definition returnTypeString :: "ProgramInfo \<Rightarrow> ConstraintVariable list \<Rightarrow> string option" where
  "returnTypeString Info V = (case V of [] \<Rightarrow> None | v # rest \<Rightarrow> Some (mkString Info v True))"

fun planReturn ::
  "ProgramInfo \<Rightarrow> (ConstraintVariable \<Rightarrow> bool) \<Rightarrow> Decl \<Rightarrow> nat option \<Rightarrow>
   ConstraintVariable option \<Rightarrow> DAndReplace list" where
  "planReturn Info anyChanges D DS (Some (FVConstraint rs ps n hp hb)) =
     (if anyChanges (FVConstraint rs ps n hp hb)
      then (case returnTypeString Info rs of
              None \<Rightarrow> []
            | Some newTy \<Rightarrow> [((D, DS), newTy)])
      else [])"
| "planReturn Info anyChanges D DS FV = []"

definition planDecl ::
  "ASTContext \<Rightarrow> ProgramInfo \<Rightarrow> (ConstraintVariable \<Rightarrow> bool) \<Rightarrow> (Decl \<Rightarrow> string) \<Rightarrow>
   Decl \<Rightarrow> nat option \<Rightarrow> ConstraintVariable list \<Rightarrow> error + DAndReplace list" where
  "planDecl C Info anyChanges printDecl D DS Vars =
     (case pickVars Vars (None, None) of
        (PV, FV) \<Rightarrow>
          (case PV of
             None \<Rightarrow> Inr (planReturn Info anyChanges D DS FV)
           | Some pv \<Rightarrow>
               if anyChanges pv
               then (case D of
                       ParmVarDecl k \<Rightarrow>
                         (case canInterface C Info D of
                            Inl e \<Rightarrow> Inl e
                          | Inr decision \<Rightarrow>
                              if decision = MakeBoundary
                              then Inr [((D, DS), printDecl D @ '' : itype('' @
                                                    mkString Info pv False @ '')'')]
                              else Inr [((D, DS), mkString Info pv True)])
                     | _ \<Rightarrow> Inr [((D, DS), mkString Info pv True)])
               else Inr (planReturn Info anyChanges D DS FV)))"

section \<open>Cast placement (CheckedCConvert.cpp)\<close>

text \<open>
  Modelled from the spec: the textual rewriter is external and supports
  \<open>insert_before(loc, text)\<close>, \<open>insert_after(loc, text)\<close>, \<open>replace(range, text)\<close>. Its
  state is the sequence of the calls made on it, oldest first; a state is unchanged
  exactly when no text was inserted, replaced or removed.
\<close>

datatype RewriteOp =
    InsertTextBefore SourceLocation string
  | InsertTextAfter SourceLocation string
  | ReplaceText SourceLocation SourceLocation string
  | RemoveText SourceLocation SourceLocation

type_synonym Rewriter = "RewriteOp list"

text \<open>\<open>dyn_cast<DeclaratorDecl>\<close>: functions, variables, parameters and fields are declarators.\<close>

fun isDeclaratorDecl :: "Decl \<Rightarrow> bool" where
  "isDeclaratorDecl (OtherDecl k) = False"
| "isDeclaratorDecl d = True"

text \<open>
  The guard at the head of \<open>CastPlacementVisitor::assign\<close>: the source is a call whose
  callee is a declarator that carries a bounds expression.
\<close>

fun hasBoundsSafeInterface :: "ASTContext \<Rightarrow> Expr \<Rightarrow> bool" where
  "hasBoundsSafeInterface C (CallExpr (Some D) args) = (isDeclaratorDecl D \<and> hasBoundsExpr C D)"
| "hasBoundsSafeInterface C e = False"

fun asCStyleCast :: "Expr \<Rightarrow> Expr option" where
  "asCStyleCast (CStyleCastExpr ty sub) = Some sub"
| "asCStyleCast e = None"

text \<open>
  \<open>CastPlacementVisitor::assign(lhs, rhs, Source)\<close>. \<open>Cast\<close> is the sub-expression of the
  C-style cast when the right-hand side has no constraint variables of its own and the
  source is such a cast.
\<close>

definition assign ::
  "ASTContext \<Rightarrow> ProgramInfo \<Rightarrow> ConstraintVariable list \<Rightarrow> ConstraintVariable list \<Rightarrow> Expr \<Rightarrow>
   Rewriter \<Rightarrow> error + Rewriter" where
  "assign C Info lhs rhs0 Source R =
     (if length lhs = 0 then Inr R
      else if hasBoundsSafeInterface C Source then Inr R
      else
        let A = getHighest Info lhs;
            Cast = (if length rhs0 = 0 then asCStyleCast Source else None);
            rhs = (case Cast of Some sub \<Rightarrow> getVariableE Info sub False | None \<Rightarrow> rhs0)
        in if length rhs = 0 then Inr R
           else
             (case (A, getHighest Info rhs) of
                (Some A, Some B) \<Rightarrow>
                  if isEq Info A B then Inr R
                  else
                    let ESL = (case Cast of Some sub \<Rightarrow> getExprLoc C sub | None \<Rightarrow> getExprLoc C Source);
                        ELL = (case Cast of Some sub \<Rightarrow> getLocEnd C sub | None \<Rightarrow> getLocEnd C Source);
                        castTo = mkString Info A False;
                        R1 = (if isLt Info A B
                              then R @ [InsertTextBefore ESL (''_Assume_bounds_cast<'' @ castTo @ ''>(''),
                                        InsertTextAfter ELL '')'']
                              else R @ [InsertTextBefore ESL (''('' @ castTo @ '')'')])
                    in (case Cast of
                          Some sub \<Rightarrow> Inr (R1 @ [InsertTextBefore (getExprLoc C Source) ''/*'',
                                                InsertTextBefore (getExprLoc C sub) ''*/''])
                        | None \<Rightarrow> Inr R1)
              | _ \<Rightarrow> Inl NullDereference))"

definition assignD ::
  "ASTContext \<Rightarrow> ProgramInfo \<Rightarrow> Decl \<Rightarrow> Expr \<Rightarrow> Rewriter \<Rightarrow> error + Rewriter" where
  "assignD C Info VD rhs R =
     assign C Info (getVariableD Info VD False) (getVariableE Info rhs False) rhs R"

definition assignE ::
  "ASTContext \<Rightarrow> ProgramInfo \<Rightarrow> Expr \<Rightarrow> Expr \<Rightarrow> Rewriter \<Rightarrow> error + Rewriter" where
  "assignE C Info lhs rhs R =
     (case IgnoreImplicit lhs of
        DeclRefExpr D \<Rightarrow> assignD C Info D (IgnoreImplicit rhs) R
      | _ \<Rightarrow> assign C Info (getVariableE Info lhs False) (getVariableE Info rhs False) rhs R)"

text \<open>A loop whose body may fail: the first failure ends it.\<close>

fun forEach :: "('a \<Rightarrow> 's \<Rightarrow> error + 's) \<Rightarrow> 'a list \<Rightarrow> 's \<Rightarrow> error + 's" where
  "forEach body [] s = Inr s"
| "forEach body (x # xs) s = (case body x s of Inl e \<Rightarrow> Inl e | Inr s' \<Rightarrow> forEach body xs s')"

definition CastPlacementVisitor_VisitDeclStmt ::
  "ASTContext \<Rightarrow> ProgramInfo \<Rightarrow> Decl list \<Rightarrow> Rewriter \<Rightarrow> error + Rewriter" where
  "CastPlacementVisitor_VisitDeclStmt C Info decls R =
     forEach (\<lambda>D R'. case D of
                 VarDecl k \<Rightarrow>
                   (case getInit C D of
                      Some init \<Rightarrow> if isPointerType (getType C D) then assignD C Info D init R'
                                   else Inr R'
                    | None \<Rightarrow> Inr R')
               | _ \<Rightarrow> Inr R') decls R"

definition CastPlacementVisitor_VisitBinAssign ::
  "ASTContext \<Rightarrow> ProgramInfo \<Rightarrow> Expr \<Rightarrow> Expr \<Rightarrow> CType \<Rightarrow> Rewriter \<Rightarrow> error + Rewriter" where
  "CastPlacementVisitor_VisitBinAssign C Info LHS RHS assignType R =
     (if isPointerType assignType
      then assignE C Info (IgnoreImplicit LHS) (IgnoreImplicit RHS) R
      else Inr R)"

text \<open>
  The body of the parameter loop of \<open>CastPlacementVisitor::VisitCallExpr\<close> for the index
  \<open>i\<close>. \<open>getParamDecl(i)\<close> and \<open>getArg(i)\<close> assert that \<open>i\<close> is in range.
\<close>

definition castArgument ::
  "ASTContext \<Rightarrow> ProgramInfo \<Rightarrow> Decl \<Rightarrow> Decl \<Rightarrow> Expr list \<Rightarrow> nat \<Rightarrow> Rewriter \<Rightarrow> error + Rewriter" where
  "castArgument C Info Declaration Definition args i R =
     (case getParamDecl C Declaration i of
        Inl e \<Rightarrow> Inl e
      | Inr declParm \<Rightarrow>
          if hasBoundsExpr C declParm then Inr R
          else if \<not> i < length args then Inl AssertionFailure
          else if \<not> isPointerType (getExprType C (args ! i)) then Inr R
          else
            (case getParamDecl C Definition i of
               Inl e \<Rightarrow> Inl e
             | Inr defParm \<Rightarrow>
                 let ESL = getExprLoc C (IgnoreImpCasts (args ! i));
                     As = getVariableE Info (args ! i) True;
                     Bs = getVariableD Info declParm False;
                     Cs = getVariableD Info defParm True
                 in if \<not> length As > 0 then Inr R
                    else
                      (case (getHighest Info As, getHighest Info Bs) of
                         (Some ExpCst, Some ParamCst0) \<Rightarrow>
                           let ParamCst =
                                 (case getHighest Info Cs of
                                    Some Cc \<Rightarrow> if \<not> isEq Info ParamCst0 Cc \<and> isLt Info Cc ParamCst0
                                               then Cc else ParamCst0
                                  | None \<Rightarrow> ParamCst0);
                               castTo = mkString Info ParamCst False
                           in if \<not> isEq Info ExpCst ParamCst
                              then (if isLt Info ParamCst ExpCst
                                    then Inr (R @ [InsertTextBefore ESL (''_Assume_bounds_cast<'' @ castTo @ ''>(''),
                                                   InsertTextAfter ESL '')''])
                                    else Inr (R @ [InsertTextBefore ESL (''('' @ castTo @ '')'')]))
                              else Inr R
                       | (Some ExpCst, None) \<Rightarrow> Inr R
                       | (None, b) \<Rightarrow> Inl NullDereference)))"

text \<open>\<open>CastPlacementVisitor::VisitCallExpr\<close>.\<close>

fun CastPlacementVisitor_VisitCallExpr ::
  "ASTContext \<Rightarrow> ProgramInfo \<Rightarrow> Expr \<Rightarrow> Rewriter \<Rightarrow> error + Rewriter" where
  "CastPlacementVisitor_VisitCallExpr C Info (CallExpr (Some (FunctionDecl f)) args) R =
     (let FD = FunctionDecl f in
      if isVariadic C FD then Inr R
      else
        let oFD = (case hasBodyDecl C FD of None \<Rightarrow> FD | Some d \<Rightarrow> d);
            Definition = oFD;
            Declaration = (if oFD = FD
                           then (case find (\<lambda>tD. tD \<noteq> Definition) (redecls C FD) of
                                   Some tD \<Rightarrow> tD | None \<Rightarrow> FD)
                           else FD)
        in forEach (castArgument C Info Declaration Definition args)
             [0 ..< length (parameters C FD)] R)"
| "CastPlacementVisitor_VisitCallExpr C Info E R = Inr R"

text \<open>
  The planning loop of \<open>RewriteConsumer::HandleTranslationUnit\<close> over the entries of
  the variable map (see \<open>planDecl\<close>); a location that resolves to no declaration is
  skipped.
\<close>

definition planRewrites ::
  "ASTContext \<Rightarrow> ProgramInfo \<Rightarrow> (ConstraintVariable \<Rightarrow> bool) \<Rightarrow> (Decl \<Rightarrow> string) \<Rightarrow>
   (Decl option \<times> nat option \<times> ConstraintVariable list) list \<Rightarrow> error + DAndReplace list" where
  "planRewrites C Info anyChanges printDecl entries =
     forEach (\<lambda>(D, DS, Vars) rewriteThese.
                case D of
                  None \<Rightarrow> Inr rewriteThese
                | Some d \<Rightarrow>
                    (case planDecl C Info anyChanges printDecl d DS Vars of
                       Inl e \<Rightarrow> Inl e
                     | Inr new \<Rightarrow> Inr (fold List.insert new rewriteThese)))
             entries []"

section \<open>Emit: which files may be written (CheckedCConvert.cpp)\<close>

text \<open>
  The file system and LLVM's path library are external. \<open>path_components\<close> is the
  sequence of components that the iterators from \<open>sys::path::begin\<close> to \<open>sys::path::end\<close>
  run over (for \<open>/a/b\<close>: \<open>/\<close>, \<open>a\<close>, \<open>b\<close>); \<open>status\<close> is \<open>sys::fs::status\<close>, which follows
  symbolic links: \<open>None\<close> for an error code, otherwise the identity of the file reached,
  and two statuses are \<open>sys::fs::equivalent\<close> when the identities are the same.
\<close>

record FileSystem =
  path_components :: "string \<Rightarrow> string list"
  status :: "string \<Rightarrow> nat option"

text \<open>\<open>sys::path::get_separator()\<close> on a POSIX system.\<close>

definition get_separator :: string where
  "get_separator = ''/''"

text \<open>
  \<open>canWrite\<close>. \<open>canWrite_loop\<close> is the \<open>while\<close> loop, on the components that remain on
  each side and the two strings built so far; \<open>canWrite_finish\<close> is the test after the
  loop, reached when one side is exhausted or by the \<open>break\<close>. Incrementing an iterator
  of a path with no component is an assertion failure.
\<close>

definition canWrite_finish :: "string list \<Rightarrow> string \<Rightarrow> string \<Rightarrow> bool" where
  "canWrite_finish baseRest baseSoFar pathSoFar = (baseRest = [] \<and> baseSoFar = pathSoFar)"

fun canWrite_loop :: "FileSystem \<Rightarrow> string list \<Rightarrow> string list \<Rightarrow> string \<Rightarrow> string \<Rightarrow> bool" where
  "canWrite_loop FS (s1 # baseRest) (s2 # pathRest) baseSoFar pathSoFar =
     (case status FS baseSoFar of
        None \<Rightarrow> False
      | Some baseStatus \<Rightarrow>
          (case status FS pathSoFar of
             None \<Rightarrow> False
           | Some pathStatus \<Rightarrow>
               if baseStatus \<noteq> pathStatus
               then canWrite_finish (s1 # baseRest) baseSoFar pathSoFar
               else canWrite_loop FS baseRest pathRest
                      (if s1 \<noteq> get_separator then baseSoFar @ s1 @ get_separator else baseSoFar)
                      (if s2 \<noteq> get_separator then pathSoFar @ s2 @ get_separator else pathSoFar)))"
| "canWrite_loop FS baseRest pathRest baseSoFar pathSoFar =
     canWrite_finish baseRest baseSoFar pathSoFar"

definition canWrite :: "FileSystem \<Rightarrow> string \<Rightarrow> string list \<Rightarrow> string \<Rightarrow> error + bool" where
  "canWrite FS filePath iof b =
     (if count_list iof filePath > 0 then Inr True
      else
        (case (path_components FS b, path_components FS filePath) of
           (b0 # baseRest, p0 # pathRest) \<Rightarrow>
             Inr (canWrite_loop FS baseRest pathRest (b0 @ get_separator) (p0 @ get_separator))
         | _ \<Rightarrow> Inl AssertionFailure))"

text \<open>The string the loop has built after the components \<open>cs\<close>.\<close>

definition joinPath :: "string list \<Rightarrow> string" where
  "joinPath cs = concat (map (\<lambda>s. s @ get_separator) cs)"

text \<open>
  Modelled from the spec's words, for comparison with \<open>canWrite\<close>: a path is a descendant
  of the base directory, with equivalence following symbolic links, when one of its
  leading directories is the same file as the base directory.
\<close>

definition descends_following_symlinks :: "FileSystem \<Rightarrow> string \<Rightarrow> string \<Rightarrow> bool" where
  "descends_following_symlinks FS filePath b =
     (case (path_components FS b, path_components FS filePath) of
        (b0 # baseRest, p0 # pathRest) \<Rightarrow>
          list_ex (\<lambda>k. status FS (p0 @ get_separator @ joinPath (take k pathRest)) \<noteq> None \<and>
                       status FS (p0 @ get_separator @ joinPath (take k pathRest))
                         = status FS (b0 @ get_separator @ joinPath baseRest))
                  [0 ..< Suc (length pathRest)]
      | _ \<Rightarrow> False)"

text \<open>
  \<open>emit\<close>. \<open>PathLibrary\<close> holds the functions of \<open>sys::path\<close> and \<open>sys::fs\<close> that it
  calls (\<open>make_absolute\<close> gives \<open>None\<close> for an error code; \<open>canOpen\<close> says whether the
  output stream for a path opens). \<open>EmitInput\<close> holds the command-line options
  \<open>BaseDir\<close> and \<open>OutputPostfix\<close>, the main file, and for each file the text of its
  rewrite buffer and the name of its file entry, if it has them. The value is the
  sequence of the writes made: a buffer to standard output, or a buffer to a file.
  \<open>emitFile\<close> is the body of the loop over the touched files.
\<close>

record PathLibrary =
  make_absolute :: "string \<Rightarrow> string option"
  remove_filename :: "string \<Rightarrow> string"
  filename :: "string \<Rightarrow> string"
  parent_path :: "string \<Rightarrow> string"
  remove_leading_dotslash :: "string \<Rightarrow> string"
  extension :: "string \<Rightarrow> string"
  stem :: "string \<Rightarrow> string"
  canOpen :: "string \<Rightarrow> bool"

type_synonym FileID = nat

record EmitInput =
  BaseDir :: string
  OutputPostfix :: string
  getMainFileID :: FileID
  getRewriteBufferFor :: "FileID \<Rightarrow> string option"
  getFileEntryForID :: "FileID \<Rightarrow> string option"

datatype Written = ToStdout string | ToFile string string

definition emitFile ::
  "FileSystem \<Rightarrow> PathLibrary \<Rightarrow> EmitInput \<Rightarrow> string list \<Rightarrow> string \<Rightarrow> FileID \<Rightarrow>
   Written list \<Rightarrow> error + Written list" where
  "emitFile FS PL E InOutFiles base F out =
     (case getRewriteBufferFor E F of
        None \<Rightarrow> Inr out
      | Some B \<Rightarrow>
          (case getFileEntryForID E F of
             None \<Rightarrow> Inr out
           | Some FEname \<Rightarrow>
               let pfName = filename PL FEname;
                   dirName = parent_path PL FEname;
                   fileName = remove_leading_dotslash PL pfName;
                   ext = extension PL fileName;
                   stem = stem PL fileName;
                   nFileName = stem @ ''.'' @ OutputPostfix E @ ext;
                   nFile = (if length dirName > 0 then dirName @ get_separator @ nFileName
                            else nFileName);
                   feAbsS = (case make_absolute PL FEname of
                               None \<Rightarrow> ''''
                             | Some feAbs \<Rightarrow> remove_leading_dotslash PL feAbs)
               in (case canWrite FS feAbsS InOutFiles base of
                     Inl e \<Rightarrow> Inl e
                   | Inr w \<Rightarrow> if w \<and> canOpen PL nFile then Inr (out @ [ToFile nFile B])
                              else Inr out)))"

definition emit ::
  "FileSystem \<Rightarrow> PathLibrary \<Rightarrow> EmitInput \<Rightarrow> FileID list \<Rightarrow> string list \<Rightarrow> error + Written list" where
  "emit FS PL E Files InOutFiles =
     (case make_absolute PL (BaseDir E) of
        None \<Rightarrow> Inl AssertionFailure
      | Some baseAbs \<Rightarrow>
          let base = remove_filename PL baseAbs in
          if OutputPostfix E = ''-''
          then (case getRewriteBufferFor E (getMainFileID E) of
                  Some B \<Rightarrow> Inr [ToStdout B]
                | None \<Rightarrow> Inr [])
          else forEach (emitFile FS PL E InOutFiles base) Files [])"

section \<open>Sample inputs\<close>

text \<open>
  A sample \<open>ProgramInfo\<close>, used where a statement is evaluated on concrete input:
  constraint variables are compared by the solved qualifier of their outer-most level
  under the assignment \<open>\<sigma>\<close>, types are structurally equal when they are equal, and
  \<open>mkString\<close> gives the variable's name. \<open>ge\<close> and \<open>gd\<close> are the tables of \<open>getVariable\<close>.
\<close>

fun outerQual :: "Assignment \<Rightarrow> ConstraintVariable \<Rightarrow> ConstAtom" where
  "outerQual \<sigma> (PVConstraint (q # rest) fv arr n) = \<sigma> q"
| "outerQual \<sigma> v = Ptr"

fun cvName :: "ConstraintVariable \<Rightarrow> string" where
  "cvName (PVConstraint vs fv arr n) = n"
| "cvName (FVConstraint rs ps n hp hb) = n"

definition sampleInfo ::
  "Assignment \<Rightarrow> (Expr \<Rightarrow> ConstraintVariable list) \<Rightarrow> (Decl \<Rightarrow> ConstraintVariable list) \<Rightarrow>
   ProgramInfo" where
  "sampleInfo \<sigma> ge gd =
     \<lparr> getVariableE = (\<lambda>e b. ge e),
       getVariableD = (\<lambda>d b. gd d),
       checkStructuralEquality = (\<lambda>V U t u. t = u),
       checkStructuralEqualityT = (\<lambda>t u. t = u),
       isLt = (\<lambda>a b. rank (outerQual \<sigma> a) < rank (outerQual \<sigma> b)),
       isEq = (\<lambda>a b. outerQual \<sigma> a = outerQual \<sigma> b),
       mkString = (\<lambda>v withName. cvName v) \<rparr>"

definition pv0 :: ConstraintVariable where "pv0 = PVConstraint [0] None False ''p''"
definition pv1 :: ConstraintVariable where "pv1 = PVConstraint [1] None False ''q''"
definition pv2 :: ConstraintVariable where "pv2 = PVConstraint [2] None False ''r''"

definition sample\<sigma> :: Assignment where
  "sample\<sigma> = (\<lambda>v. if v = 0 then Arr else if v = 1 then Wild else Ptr)"

text \<open>
  A sample \<open>ASTContext\<close>: one translation unit whose declarations have the types \<open>ty\<close> and
  the initialisers \<open>init\<close>; variables are local, locations are valid and outside system
  headers; an integer literal is an integer constant expression and the literal \<open>0\<close> is a
  null-pointer constant. \<open>declTable\<close> and \<open>exprTable\<close> are the \<open>getVariable\<close> tables of a
  unit that declares one pointer \<open>p\<close> (declaration \<open>0\<close>) with the constraint variable
  \<open>pv0\<close>.
\<close>

definition sampleContext :: "(Decl \<Rightarrow> CType) \<Rightarrow> (Decl \<Rightarrow> Expr option) \<Rightarrow> ASTContext" where
  "sampleContext ty init =
     \<lparr> getType = ty,
       getName = (\<lambda>d. ''p''),
       getInit = init,
       isLocalVarDecl = (\<lambda>d. case d of VarDecl k \<Rightarrow> True | _ \<Rightarrow> False),
       hasGlobalStorage = (\<lambda>d. False),
       validLoc = (\<lambda>d. True),
       isInSystemHeader = (\<lambda>d. False),
       isVariadic = (\<lambda>d. False),
       redecls = (\<lambda>d. [d]),
       doesThisDeclarationHaveABody = (\<lambda>d. False),
       parameters = (\<lambda>d. []),
       getParentFunctionOrMethod = (\<lambda>d. d),
       hasBoundsExpr = (\<lambda>d. False),
       getExprType = (\<lambda>e. case e of IntegerLiteral k \<Rightarrow> BuiltinTy ''int'' | _ \<Rightarrow> PointerTy (BuiltinTy ''int'')),
       getExprLoc = (\<lambda>e. 0),
       getLocEnd = (\<lambda>e. 0),
       isIntegerConstantExpr = (\<lambda>e. case e of IntegerLiteral k \<Rightarrow> True | _ \<Rightarrow> False),
       isNullPointerConstant = (\<lambda>e. e = IntegerLiteral 0) \<rparr>"

definition declTable :: "Decl \<Rightarrow> ConstraintVariable list" where
  "declTable d = (if d = VarDecl 0 \<or> d = FieldDecl 0 then [pv0] else [])"

definition exprTable :: "Expr \<Rightarrow> ConstraintVariable list" where
  "exprTable e = (case e of DeclRefExpr d \<Rightarrow> declTable d | _ \<Rightarrow> [])"


definition variadicContext :: ASTContext where
  "variadicContext =
     (sampleContext (\<lambda>d. PointerTy (BuiltinTy ''int'')) (\<lambda>d. None))
       \<lparr> isVariadic := (\<lambda>d. d = FunctionDecl 1),
         parameters := (\<lambda>d. if d = FunctionDecl 1 \<or> d = FunctionDecl 2 then [ParmVarDecl 0] else []) \<rparr>"

definition argTable :: "Decl \<Rightarrow> ConstraintVariable list" where
  "argTable d = (if d = VarDecl 1 then [pv1] else if d = ParmVarDecl 0 then [pv2] else [])"

definition argExprTable :: "Expr \<Rightarrow> ConstraintVariable list" where
  "argExprTable e = (case e of DeclRefExpr d \<Rightarrow> argTable d | _ \<Rightarrow> [])"

definition interfaceContext :: ASTContext where
  "interfaceContext =
     (sampleContext (\<lambda>d. PointerTy (BuiltinTy ''int'')) (\<lambda>d. None))
       \<lparr> redecls := (\<lambda>d. if d = FunctionDecl 2 then [FunctionDecl 2, FunctionDecl 1]
                          else if d = FunctionDecl 1 then [FunctionDecl 1, FunctionDecl 2]
                          else [d]),
         doesThisDeclarationHaveABody := (\<lambda>d. d = FunctionDecl 2),
         parameters := (\<lambda>d. if d = FunctionDecl 1 then [ParmVarDecl 10]
                             else if d = FunctionDecl 2 then [ParmVarDecl 20] else []),
         getParentFunctionOrMethod := (\<lambda>d. if d = ParmVarDecl 10 then FunctionDecl 1
                                            else FunctionDecl 2) \<rparr>"

definition interfaceTable :: "Decl \<Rightarrow> ConstraintVariable list" where
  "interfaceTable d = (if d = ParmVarDecl 10 then [pv1] else if d = ParmVarDecl 20 then [pv0] else [])"


definition noPrototypeContext :: ASTContext where
  "noPrototypeContext = interfaceContext \<lparr> parameters :=
      (\<lambda>d. if d = FunctionDecl 2 then [ParmVarDecl 20] else []) \<rparr>"

definition definitionOnlyTable :: "Decl \<Rightarrow> ConstraintVariable list" where
  "definitionOnlyTable d = (if d = ParmVarDecl 20 then [pv0] else [])"

definition twoParamContext :: ASTContext where
  "twoParamContext = interfaceContext \<lparr> parameters :=
      (\<lambda>d. if d = FunctionDecl 1 then [ParmVarDecl 10, ParmVarDecl 11]
            else if d = FunctionDecl 2 then [ParmVarDecl 20, ParmVarDecl 21] else []),
      getParentFunctionOrMethod :=
      (\<lambda>d. if d = ParmVarDecl 10 \<or> d = ParmVarDecl 11 then FunctionDecl 1 else FunctionDecl 2) \<rparr>"

definition twoParamTable :: "Decl \<Rightarrow> ConstraintVariable list" where
  "twoParamTable d = (if d = ParmVarDecl 10 then [pv2] else if d = ParmVarDecl 20 then [pv1]
                      else if d = ParmVarDecl 11 then [pv1] else if d = ParmVarDecl 21 then [pv0]
                      else [])"




text \<open>
  A sample file system and path library. \<open>/link\<close> is a symbolic link to the directory
  \<open>/real\<close>, which holds \<open>proj/x.h\<close>; \<open>/home/u\<close> holds the directories \<open>proj\<close> and
  \<open>other\<close>. The strings given a status are the ones \<open>canWrite\<close> builds.
  \<open>remove_filename\<close> drops the last component of a path. \<open>projectEmit dir file\<close> is a
  run with \<open>--base-dir dir\<close> and the output postfix \<open>checked\<close>, in which the rewriter
  touched the one file \<open>file\<close>.
\<close>

definition table :: "(string \<times> 'a) list \<Rightarrow> 'a \<Rightarrow> string \<Rightarrow> 'a" where
  "table kvs dflt k = (case map_of kvs k of Some v \<Rightarrow> v | None \<Rightarrow> dflt)"

definition projectFS :: FileSystem where
  "projectFS =
     \<lparr> path_components = table
         [(''/link'', [''/'', ''link'']),
          (''/real/proj/x.h'', [''/'', ''real'', ''proj'', ''x.h'']),
          (''/link/proj'', [''/'', ''link'', ''proj'']),
          (''/home/u'', [''/'', ''home'', ''u'']),
          (''/home/u/proj'', [''/'', ''home'', ''u'', ''proj'']),
          (''/home/u/other/y.h'', [''/'', ''home'', ''u'', ''other'', ''y.h''])] [],
       status = table
         [(''//'', Some 1), (''//link/'', Some 2), (''//real/'', Some 2),
          (''//link/proj/'', Some 3), (''//real/proj/'', Some 3), (''//real/proj/x.h/'', Some 4),
          (''//home/'', Some 5), (''//home/u/'', Some 6), (''//home/u/proj/'', Some 7),
          (''//home/u/other/'', Some 8), (''//home/u/other/y.h/'', Some 9)] None \<rparr>"

definition projectPaths :: PathLibrary where
  "projectPaths =
     \<lparr> make_absolute = (\<lambda>p. Some p),
       remove_filename = table [(''/link/proj'', ''/link''), (''/home/u/proj'', ''/home/u'')] '''',
       filename = table [(''/real/proj/x.h'', ''x.h''), (''/home/u/other/y.h'', ''y.h'')] '''',
       parent_path = table [(''/real/proj/x.h'', ''/real/proj''),
                            (''/home/u/other/y.h'', ''/home/u/other'')] '''',
       remove_leading_dotslash = (\<lambda>p. p),
       extension = (\<lambda>p. ''.h''),
       stem = table [(''x.h'', ''x''), (''y.h'', ''y'')] '''',
       canOpen = (\<lambda>p. True) \<rparr>"

definition projectEmit :: "string \<Rightarrow> string \<Rightarrow> EmitInput" where
  "projectEmit dir file =
     \<lparr> BaseDir = dir, OutputPostfix = ''checked'', getMainFileID = 0,
       getRewriteBufferFor = (\<lambda>F. if F = 1 then Some ''int *p;'' else None),
       getFileEntryForID = (\<lambda>F. if F = 1 then Some file else None) \<rparr>"

section \<open>Properties of getHighest\<close>

lemma getHighest_loop_Some:
  "\<exists>w. getHighest_loop Info (Some v) Ps = Some w \<and> (w = v \<or> w \<in> set Ps)"
proof (induction Ps arbitrary: v)
  case Nil
  show ?case by simp
next
  case (Cons P Ps)
  show ?case
  proof (cases "isLt Info v P \<and> \<not> isEq Info v P")
    case True
    with Cons.IH [of P] show ?thesis by auto
  next
    case False
    with Cons.IH [of v] show ?thesis by auto
  qed
qed

lemma getHighest_loop_max:
  assumes irr: "\<forall>x\<in>S. \<not> isLt Info x x"
    and tr: "\<forall>x\<in>S. \<forall>y\<in>S. \<forall>z\<in>S. isLt Info x y \<longrightarrow> isLt Info y z \<longrightarrow> isLt Info x z"
    and tot: "\<forall>x\<in>S. \<forall>y\<in>S. x = y \<or> isLt Info x y \<or> isLt Info y x"
    and eq: "\<forall>x\<in>S. \<forall>y\<in>S. isEq Info x y \<longrightarrow> \<not> isLt Info x y"
  shows "v \<in> S \<Longrightarrow> set Ps \<subseteq> S \<Longrightarrow> \<forall>x\<in>D. x \<in> S \<and> (x = v \<or> isLt Info x v) \<Longrightarrow>
    getHighest_loop Info (Some v) Ps = Some m \<Longrightarrow>
    \<forall>x\<in>D \<union> {v} \<union> set Ps. x = m \<or> isLt Info x m"
proof (induction Ps arbitrary: v D)
  case Nil
  then show ?case by auto
next
  case (Cons P Ps)
  have PS: "P \<in> S" and PsS: "set Ps \<subseteq> S" using Cons.prems(2) by auto
  show ?case
  proof (cases "isLt Info v P \<and> \<not> isEq Info v P")
    case True
    have below: "\<forall>x\<in>D \<union> {v}. x \<in> S \<and> (x = P \<or> isLt Info x P)"
    proof
      fix x assume "x \<in> D \<union> {v}"
      then consider "x = v" | "x \<in> D" "x \<noteq> v" by auto
      then show "x \<in> S \<and> (x = P \<or> isLt Info x P)"
      proof cases
        case 1
        then show ?thesis using True Cons.prems(1) by simp
      next
        case 2
        then have xs: "x \<in> S" and xv: "isLt Info x v" using Cons.prems(3) by auto
        from tr xs Cons.prems(1) PS xv True have "isLt Info x P" by blast
        with xs show ?thesis by simp
      qed
    qed
    have run: "getHighest_loop Info (Some P) Ps = Some m"
      using True Cons.prems(4) by simp
    from Cons.IH [OF PS PsS below run] show ?thesis by auto
  next
    case False
    have nlt: "\<not> isLt Info v P"
    proof
      assume lt: "isLt Info v P"
      with False have "isEq Info v P" by simp
      with eq Cons.prems(1) PS lt show False by blast
    qed
    have "P = v \<or> isLt Info P v" using nlt tot Cons.prems(1) PS by blast
    then have below: "\<forall>x\<in>D \<union> {P}. x \<in> S \<and> (x = v \<or> isLt Info x v)"
      using Cons.prems(3) PS by auto
    have run: "getHighest_loop Info (Some v) Ps = Some m"
      using False Cons.prems(4) by auto
    from Cons.IH [OF Cons.prems(1) PsS below run] show ?thesis by auto
  qed
qed

text \<open>
  C9. \<open>getHighest\<close> returns \<open>nullptr\<close> exactly on the empty set; on a non-empty set it
  returns one of the set's elements; and when \<open>isLt\<close> is a total order on the set (with
  \<open>isEq\<close> its equality), every other element of the set is \<open>isLt\<close> the returned one.
\<close>

theorem getHighest_spec:
  "(getHighest Info Vs = None \<longleftrightarrow> Vs = []) \<and>
   (Vs \<noteq> [] \<longrightarrow> (\<exists>m. getHighest Info Vs = Some m \<and> m \<in> set Vs)) \<and>
   (total_order_on_set Info Vs \<longrightarrow>
      (\<forall>m. getHighest Info Vs = Some m \<longrightarrow> (\<forall>x\<in>set Vs. x = m \<or> isLt Info x m)))"
proof (cases Vs)
  case Nil
  then show ?thesis by (simp add: getHighest_def)
next
  case (Cons P Ps)
  have run: "getHighest Info Vs = getHighest_loop Info (Some P) Ps"
    using Cons by (simp add: getHighest_def)
  obtain w where w: "getHighest_loop Info (Some P) Ps = Some w" "w = P \<or> w \<in> set Ps"
    using getHighest_loop_Some [of Info P Ps] by blast
  have part12: "getHighest Info Vs = Some w \<and> w \<in> set Vs"
    using run w Cons by auto
  have part3: "\<forall>x\<in>set Vs. x = m \<or> isLt Info x m"
    if ord: "total_order_on_set Info Vs" and res: "getHighest Info Vs = Some m" for m
  proof -
    let ?S = "set Vs"
    have irr: "\<forall>x\<in>?S. \<not> isLt Info x x"
      and tr: "\<forall>x\<in>?S. \<forall>y\<in>?S. \<forall>z\<in>?S. isLt Info x y \<longrightarrow> isLt Info y z \<longrightarrow> isLt Info x z"
      and tot: "\<forall>x\<in>?S. \<forall>y\<in>?S. x = y \<or> isLt Info x y \<or> isLt Info y x"
      and eq: "\<forall>x\<in>?S. \<forall>y\<in>?S. isEq Info x y \<longrightarrow> \<not> isLt Info x y"
      using ord unfolding total_order_on_set_def list_all_iff by blast+
    have "\<forall>x\<in>{} \<union> {P} \<union> set Ps. x = m \<or> isLt Info x m"
    proof (rule getHighest_loop_max [OF irr tr tot eq])
      show "P \<in> ?S" using Cons by simp
      show "set Ps \<subseteq> ?S" using Cons by auto
      show "\<forall>x\<in>{}. x \<in> ?S \<and> (x = P \<or> isLt Info x P)" by simp
      show "getHighest_loop Info (Some P) Ps = Some m" using run res by simp
    qed
    then show ?thesis using Cons by simp
  qed
  show ?thesis using part12 part3 Cons by auto
qed

theorem getHighest_spec_witness:
  "[pv0, pv1, pv2] \<noteq> [] \<and>
   total_order_on_set (sampleInfo sample\<sigma> (\<lambda>e. []) (\<lambda>d. [])) [pv0, pv1, pv2] \<and>
   getHighest (sampleInfo sample\<sigma> (\<lambda>e. []) (\<lambda>d. [])) [pv0, pv1, pv2] = Some pv1 \<and>
   list_all (\<lambda>x. x = pv1 \<or> isLt (sampleInfo sample\<sigma> (\<lambda>e. []) (\<lambda>d. [])) x pv1) [pv0, pv1, pv2]"
proof -
  let ?I = "sampleInfo sample\<sigma> (\<lambda>e. []) (\<lambda>d. [])"
  have ord: "total_order_on_set ?I [pv0, pv1, pv2]"
    by (simp add: total_order_on_set_def sampleInfo_def sample\<sigma>_def pv0_def pv1_def pv2_def)
  have res: "getHighest ?I [pv0, pv1, pv2] = Some pv1"
    by (simp add: getHighest_def sampleInfo_def sample\<sigma>_def pv0_def pv1_def pv2_def)
  have ne: "[pv0, pv1, pv2] \<noteq> []" by simp
  show ?thesis
    using getHighest_spec [of ?I "[pv0, pv1, pv2]"] ord res ne
    by (simp add: list_all_iff)
qed

section \<open>Properties of the solver\<close>

lemma solve_loop_fixed:
  "v \<in> set (store_qvars CS) \<Longrightarrow> pass CS (solve_loop CS \<sigma>) v = solve_loop CS \<sigma> v"
proof (induction CS \<sigma> rule: solve_loop.induct)
  case (1 CS \<sigma>)
  show ?case
  proof (cases "changed CS \<sigma> (pass CS \<sigma>)")
    case True
    then show ?thesis using 1 by (simp add: Let_def)
  next
    case False
    then show ?thesis using 1(2) by (auto simp: Let_def changed_def list_ex_iff)
  qed
qed

lemma fold_apply_infl: "rank (\<sigma> v) \<le> rank (fold apply_constraint CS \<sigma> v)"
  using pass_infl [of \<sigma> v CS] by (simp add: pass_def)

lemma pass_Eq_const:
  "Eq (VarAtom q) (ConstA c) \<in> set CS \<Longrightarrow> rank c \<le> rank (pass CS \<sigma> q)"
  unfolding pass_def
proof (induction CS arbitrary: \<sigma>)
  case (Cons x CS)
  show ?case
  proof (cases "x = Eq (VarAtom q) (ConstA c)")
    case True
    have "rank c \<le> rank (apply_constraint x \<sigma> q)"
      using True by (simp add: Let_def rank_max_lattice)
    also have "\<dots> \<le> rank (fold apply_constraint CS (apply_constraint x \<sigma>) q)"
      by (rule fold_apply_infl)
    finally show ?thesis by simp
  next
    case False
    with Cons show ?thesis by auto
  qed
qed simp

lemma solve_Eq_const:
  assumes "Eq (VarAtom q) (ConstA c) \<in> set CS"
  shows "rank c \<le> rank (solve CS q)"
proof -
  have "q \<in> set (store_qvars CS)"
    using assms by (force simp: store_qvars_def)
  then have "pass CS (solve CS) q = solve CS q"
    unfolding solve_def by (rule solve_loop_fixed)
  then show ?thesis using pass_Eq_const [OF assms, of "solve CS"] by simp
qed

lemma solve_empty: "solve [] q = Ptr"
  by (simp add: solve_def changed_def store_qvars_def pass_def)

lemma addConstraints_append: "addConstraints cs CS = CS @ cs"
  unfolding addConstraints_def
  by (induction cs arbitrary: CS) (simp_all add: addConstraint_def)

section \<open>Properties of constrainEq\<close>

lemma length_concat_const:
  "length (concat (map (\<lambda>I. map (f I) ys) xs)) = length xs * length ys"
  by (induction xs) simp_all

text \<open>
  C5. \<open>constrainEq\<close> on two pointer variables. With the same number of levels it emits
  one \<open>Eq\<close> per level, pairing the levels in order; with different numbers of levels it
  emits an \<open>Eq\<close> for every pair of qualifier variables, one from each side, and nothing
  else: every emitted constraint equates two variables, none mentions \<open>Wild\<close>.
\<close>

theorem constrainEq_PointerCVs:
  "(length v1 = length v2 \<longrightarrow>
      length (constrainEq (PVConstraint v1 f1 a1 n1) (PVConstraint v2 f2 a2 n2)) = length v1 \<and>
      (\<forall>k<length v1. constrainEq (PVConstraint v1 f1 a1 n1) (PVConstraint v2 f2 a2 n2) ! k
                        = Eq (VarAtom (v1 ! k)) (VarAtom (v2 ! k)))) \<and>
   (length v1 \<noteq> length v2 \<longrightarrow>
      length (constrainEq (PVConstraint v1 f1 a1 n1) (PVConstraint v2 f2 a2 n2))
        = length v1 * length v2 \<and>
      (\<forall>i\<in>set v1. \<forall>j\<in>set v2. Eq (VarAtom i) (VarAtom j)
          \<in> set (constrainEq (PVConstraint v1 f1 a1 n1) (PVConstraint v2 f2 a2 n2))) \<and>
      (\<forall>c\<in>set (constrainEq (PVConstraint v1 f1 a1 n1) (PVConstraint v2 f2 a2 n2)).
          \<exists>i\<in>set v1. \<exists>j\<in>set v2. c = Eq (VarAtom i) (VarAtom j)))"
proof (cases "length v1 = length v2")
  case True
  then show ?thesis by simp
next
  case False
  then show ?thesis by (auto simp: length_concat_const)
qed

theorem constrainEq_PointerCVs_witness:
  "length [0, 1 :: uint32] = length [2, 3 :: uint32] \<and>
   constrainEq (PVConstraint [0, 1] None False ''p'') (PVConstraint [2, 3] None False ''q'')
     = [Eq (VarAtom 0) (VarAtom 2), Eq (VarAtom 1) (VarAtom 3)] \<and>
   length [0, 1 :: uint32] \<noteq> length [2 :: uint32] \<and>
   constrainEq (PVConstraint [0, 1] None False ''p'') (PVConstraint [2] None False ''q'')
     = [Eq (VarAtom 0) (VarAtom 2), Eq (VarAtom 1) (VarAtom 2)]"
  using constrainEq_PointerCVs [of "[0, 1]" "[2, 3]" None False "''p''" None False "''q''"]
    constrainEq_PointerCVs [of "[0, 1]" "[2]" None False "''p''" None False "''q''"]
  by simp

section \<open>Properties of the constraint generator\<close>

lemma eqWildCvars_mem:
  "PVConstraint vs fv arr n \<in> set V \<Longrightarrow> q \<in> set vs \<Longrightarrow>
   Eq (VarAtom q) (ConstA Wild) \<in> set (concat (map eqWildCvars V))"
  by (induction V) auto

lemma runSteps_single: "runSteps [Inr cs] CS = Inr (CS @ cs)"
  by (simp add: addConstraints_append)

text \<open>
  C4. \<open>constrainAssign\<close> with a non-empty left-hand side \<open>V\<close> and a right-hand side
  that has no constraint variables and is an integer constant expression: a null-pointer
  constant adds no constraint and leaves the store as it was; any other integer adds
  \<open>Eq(q, Wild)\<close> for every qualifier variable \<open>q\<close> of every pointer variable of \<open>V\<close>.
  For the program \<open>int *p; p = 0;\<close> the declaration statement and the assignment leave
  the empty store empty, and the solved qualifier of \<open>p\<close> is \<open>Ptr\<close>.
\<close>

theorem constrainAssign_integer_constant:
  assumes "V \<noteq> []" and "getVariableE Info RHS False = []"
    and "isIntegerConstantExpr C (IgnoreParens RHS)"
  shows "(isNullPointerConstant C (IgnoreParens RHS) \<longrightarrow>
            constrainAssign C Info V lhsType (Some RHS) = Inr [] \<and>
            runSteps [constrainAssign C Info V lhsType (Some RHS)] CS = Inr CS) \<and>
         (\<not> isNullPointerConstant C (IgnoreParens RHS) \<longrightarrow>
            (\<exists>cs. constrainAssign C Info V lhsType (Some RHS) = Inr cs \<and>
                  runSteps [constrainAssign C Info V lhsType (Some RHS)] CS = Inr (CS @ cs) \<and>
                  (\<forall>vs fv arr n. PVConstraint vs fv arr n \<in> set V \<longrightarrow>
                     (\<forall>q\<in>set vs. Eq (VarAtom q) (ConstA Wild) \<in> set cs)))) \<and>
         VisitDeclStmt (sampleContext (\<lambda>d. PointerTy (BuiltinTy ''int'')) (\<lambda>d. None))
            (sampleInfo (\<lambda>v. Ptr) exprTable declTable) [VarDecl 0] [] = Inr [] \<and>
         VisitBinAssign (sampleContext (\<lambda>d. PointerTy (BuiltinTy ''int'')) (\<lambda>d. None))
            (sampleInfo (\<lambda>v. Ptr) exprTable declTable)
            (DeclRefExpr (VarDecl 0)) (IntegerLiteral 0) [] = Inr [] \<and>
         solve [] 0 = Ptr"
proof -
  have npc: "constrainAssign C Info V lhsType (Some RHS) = Inr []"
    if "isNullPointerConstant C (IgnoreParens RHS)"
    using assms that by (simp add: constrainAssign_def Let_def)
  have nonnull: "constrainAssign C Info V lhsType (Some RHS) = Inr (concat (map eqWildCvars V))"
    if "\<not> isNullPointerConstant C (IgnoreParens RHS)"
    using assms that by (simp add: constrainAssign_def Let_def)
  have decl: "VisitDeclStmt (sampleContext (\<lambda>d. PointerTy (BuiltinTy ''int'')) (\<lambda>d. None))
            (sampleInfo (\<lambda>v. Ptr) exprTable declTable) [VarDecl 0] [] = Inr []"
    by (simp add: VisitDeclStmt_def MyVisitVarDecl_def specialCaseVarIntros_def sampleContext_def
        sampleInfo_def constrainAssignD_def constrainAssign_def isVoidType_def isPointerType_def
        addVariable_def isVoidPointerType_def addConstraints_append)
  have asg: "VisitBinAssign (sampleContext (\<lambda>d. PointerTy (BuiltinTy ''int'')) (\<lambda>d. None))
            (sampleInfo (\<lambda>v. Ptr) exprTable declTable)
            (DeclRefExpr (VarDecl 0)) (IntegerLiteral 0) [] = Inr []"
    by (simp add: VisitBinAssign_def constrainAssignE_def constrainAssign_def sampleContext_def
        sampleInfo_def exprTable_def declTable_def pv0_def addConstraints_append)
  have p1: "isNullPointerConstant C (IgnoreParens RHS) \<longrightarrow>
            constrainAssign C Info V lhsType (Some RHS) = Inr [] \<and>
            runSteps [constrainAssign C Info V lhsType (Some RHS)] CS = Inr CS"
    using npc by (simp add: addConstraints_append)
  have p2: "\<not> isNullPointerConstant C (IgnoreParens RHS) \<longrightarrow>
            (\<exists>cs. constrainAssign C Info V lhsType (Some RHS) = Inr cs \<and>
                  runSteps [constrainAssign C Info V lhsType (Some RHS)] CS = Inr (CS @ cs) \<and>
                  (\<forall>vs fv arr n. PVConstraint vs fv arr n \<in> set V \<longrightarrow>
                     (\<forall>q\<in>set vs. Eq (VarAtom q) (ConstA Wild) \<in> set cs)))"
  proof
    assume nn: "\<not> isNullPointerConstant C (IgnoreParens RHS)"
    have "runSteps [constrainAssign C Info V lhsType (Some RHS)] CS
            = Inr (CS @ concat (map eqWildCvars V))"
      using nonnull [OF nn] by (simp only: runSteps_single)
    moreover have "\<forall>vs fv arr n. PVConstraint vs fv arr n \<in> set V \<longrightarrow>
        (\<forall>q\<in>set vs. Eq (VarAtom q) (ConstA Wild) \<in> set (concat (map eqWildCvars V)))"
      using eqWildCvars_mem by blast
    ultimately show "\<exists>cs. constrainAssign C Info V lhsType (Some RHS) = Inr cs \<and>
                  runSteps [constrainAssign C Info V lhsType (Some RHS)] CS = Inr (CS @ cs) \<and>
                  (\<forall>vs fv arr n. PVConstraint vs fv arr n \<in> set V \<longrightarrow>
                     (\<forall>q\<in>set vs. Eq (VarAtom q) (ConstA Wild) \<in> set cs))"
      using nonnull [OF nn] by blast
  qed
  show ?thesis
    using p1 p2 decl asg solve_empty [of 0] by blast
qed

theorem constrainAssign_integer_constant_witness:
  "constrainAssign (sampleContext (\<lambda>d. PointerTy (BuiltinTy ''int'')) (\<lambda>d. None))
      (sampleInfo (\<lambda>v. Ptr) exprTable declTable) [pv0] (PointerTy (BuiltinTy ''int''))
      (Some (ParenExpr (IntegerLiteral 0))) = Inr [] \<and>
   constrainAssign (sampleContext (\<lambda>d. PointerTy (BuiltinTy ''int'')) (\<lambda>d. None))
      (sampleInfo (\<lambda>v. Ptr) exprTable declTable) [pv0] (PointerTy (BuiltinTy ''int''))
      (Some (IntegerLiteral 7)) = Inr [Eq (VarAtom 0) (ConstA Wild)]"
proof -
  let ?C = "sampleContext (\<lambda>d. PointerTy (BuiltinTy ''int'')) (\<lambda>d. None)"
  let ?I = "sampleInfo (\<lambda>v. Ptr) exprTable declTable"
  have v: "[pv0] \<noteq> []" by simp
  have w0: "getVariableE ?I (ParenExpr (IntegerLiteral 0)) False = []"
    and w7: "getVariableE ?I (IntegerLiteral 7) False = []"
    by (simp_all add: sampleInfo_def exprTable_def)
  have i0: "isIntegerConstantExpr ?C (IgnoreParens (ParenExpr (IntegerLiteral 0)))"
    and i7: "isIntegerConstantExpr ?C (IgnoreParens (IntegerLiteral 7))"
    by (simp_all add: sampleContext_def)
  have n0: "isNullPointerConstant ?C (IgnoreParens (ParenExpr (IntegerLiteral 0)))"
    and n7: "\<not> isNullPointerConstant ?C (IgnoreParens (IntegerLiteral 7))"
    by (simp_all add: sampleContext_def)
  have a: "constrainAssign ?C ?I [pv0] (PointerTy (BuiltinTy ''int''))
      (Some (ParenExpr (IntegerLiteral 0))) = Inr []"
    using constrainAssign_integer_constant [OF v w0 i0] n0 by blast
  have b: "constrainAssign ?C ?I [pv0] (PointerTy (BuiltinTy ''int''))
      (Some (IntegerLiteral 7)) = Inr [Eq (VarAtom 0) (ConstA Wild)]"
    by (simp add: constrainAssign_def sampleContext_def sampleInfo_def exprTable_def pv0_def)
  show ?thesis using a b by simp
qed

lemma firstArr_mem:
  "PVConstraint (q # rest) fv arr n \<in> set Var \<Longrightarrow>
   Eq (VarAtom q) (ConstA Arr) \<in> set (concat (map firstArr Var))"
  by (induction Var) auto

text \<open>
  C6. For a subscript expression \<open>b[i]\<close> where \<open>b\<close> resolves to a pointer variable with
  at least one qualifier variable, the visitor emits \<open>Eq(q, Arr)\<close> on the outer-most
  qualifier variable \<open>q\<close> of \<open>b\<close>; and in every store that results from adding the
  emitted constraints to a store \<open>CS\<close> and then any further constraints, the solved
  qualifier of \<open>q\<close> is at least \<open>Arr\<close>.
\<close>

theorem VisitArraySubscriptExpr_outer_Arr:
  assumes "PVConstraint (q # rest) fv arr n \<in> set (getVariableE Info b False)"
  shows "Eq (VarAtom q) (ConstA Arr) \<in> set (VisitArraySubscriptExpr Info (ArraySubscriptExpr b i)) \<and>
         rank Arr \<le> rank (solve (addConstraints (VisitArraySubscriptExpr Info (ArraySubscriptExpr b i)) CS @ later) q)"
proof -
  have emitted: "Eq (VarAtom q) (ConstA Arr) \<in> set (VisitArraySubscriptExpr Info (ArraySubscriptExpr b i))"
    using assms by (simp only: VisitArraySubscriptExpr.simps constrainExprFirstArr_def firstArr_mem)
  then have "Eq (VarAtom q) (ConstA Arr)
      \<in> set (addConstraints (VisitArraySubscriptExpr Info (ArraySubscriptExpr b i)) CS @ later)"
    by (simp add: addConstraints_append)
  then have "rank Arr \<le> rank (solve (addConstraints (VisitArraySubscriptExpr Info (ArraySubscriptExpr b i)) CS @ later) q)"
    by (rule solve_Eq_const)
  with emitted show ?thesis by simp
qed

theorem VisitArraySubscriptExpr_outer_Arr_witness:
  "pv0 \<in> set (getVariableE (sampleInfo (\<lambda>v. Ptr) exprTable declTable) (DeclRefExpr (VarDecl 0)) False) \<and>
   VisitArraySubscriptExpr (sampleInfo (\<lambda>v. Ptr) exprTable declTable)
     (ArraySubscriptExpr (DeclRefExpr (VarDecl 0)) (IntegerLiteral 0)) = [Eq (VarAtom 0) (ConstA Arr)] \<and>
   solve (addConstraints (VisitArraySubscriptExpr (sampleInfo (\<lambda>v. Ptr) exprTable declTable)
     (ArraySubscriptExpr (DeclRefExpr (VarDecl 0)) (IntegerLiteral 0))) []) 0 \<noteq> Ptr"
proof -
  let ?I = "sampleInfo (\<lambda>v. Ptr) exprTable declTable"
  have tab: "getVariableE ?I (DeclRefExpr (VarDecl 0)) False = [PVConstraint [0] None False ''p'']"
    by (simp add: sampleInfo_def exprTable_def declTable_def pv0_def)
  then have mem: "PVConstraint (0 # []) None False ''p'' \<in> set (getVariableE ?I (DeclRefExpr (VarDecl 0)) False)"
    by simp
  have em: "VisitArraySubscriptExpr ?I (ArraySubscriptExpr (DeclRefExpr (VarDecl 0)) (IntegerLiteral 0))
      = [Eq (VarAtom 0) (ConstA Arr)]"
    using tab by (simp add: constrainExprFirstArr_def)
  have "rank Arr \<le> rank (solve (addConstraints (VisitArraySubscriptExpr ?I
     (ArraySubscriptExpr (DeclRefExpr (VarDecl 0)) (IntegerLiteral 0))) [] @ []) 0)"
    using VisitArraySubscriptExpr_outer_Arr [OF mem, of "IntegerLiteral 0" "[]" "[]"] by blast
  then have "solve (addConstraints (VisitArraySubscriptExpr ?I
     (ArraySubscriptExpr (DeclRefExpr (VarDecl 0)) (IntegerLiteral 0))) []) 0 \<noteq> Ptr"
    by auto
  then show ?thesis using tab em by (simp add: pv0_def)
qed







section \<open>Properties of the rewrite planner\<close>

text \<open>
  What \<open>canInterface\<close> decides where it returns: \<open>DoNothing\<close> for a variadic function,
  for one without a body, and for a definition without another declaration; otherwise,
  for the parameter at position \<open>i\<close>, with both declarations having a parameter there and
  \<open>U\<close> and \<open>V\<close> the highest constraint variables of the definition's and of the
  declaration's parameter \<open>i\<close>, \<open>MakeBoundary\<close> when \<open>U\<close> is lower than \<open>V\<close> and
  \<open>IncreaseCallers\<close> in every other case.
\<close>

lemma indexOf_first:
  "i < length xs \<Longrightarrow> xs ! i = D \<Longrightarrow> D \<notin> set (take i xs) \<Longrightarrow> indexOf D xs = Some i"
proof (induction xs arbitrary: i)
  case Nil
  then show ?case by simp
next
  case (Cons x xs)
  show ?case
  proof (cases i)
    case 0
    then show ?thesis using Cons.prems by simp
  next
    case (Suc j)
    then have "indexOf D xs = Some j" "D \<noteq> x"
      using Cons.prems Cons.IH [of j] by auto
    then show ?thesis using Suc by simp
  qed
qed

lemma canInterface_DoNothing:
  assumes "isPointerType (getType C D)"
  shows "(isVariadic C (getParentFunctionOrMethod C D) \<longrightarrow> canInterface C P D = Inr DoNothing) \<and>
         (hasBodyDecl C (getParentFunctionOrMethod C D) = None \<longrightarrow>
            canInterface C P D = Inr DoNothing) \<and>
         (hasBodyDecl C (getParentFunctionOrMethod C D) = Some (getParentFunctionOrMethod C D) \<and>
          (\<forall>tD\<in>set (redecls C (getParentFunctionOrMethod C D)). tD = getParentFunctionOrMethod C D) \<longrightarrow>
            canInterface C P D = Inr DoNothing)"
proof -
  let ?FD = "getParentFunctionOrMethod C D"
  have c1: "isVariadic C ?FD \<longrightarrow> canInterface C P D = Inr DoNothing"
    using assms by (simp add: canInterface_def Let_def split: option.splits)
  have c2: "hasBodyDecl C ?FD = None \<longrightarrow> canInterface C P D = Inr DoNothing"
    using assms by (simp add: canInterface_def Let_def)
  have c3: "hasBodyDecl C ?FD = Some ?FD \<and> (\<forall>tD\<in>set (redecls C ?FD). tD = ?FD) \<longrightarrow>
            canInterface C P D = Inr DoNothing"
  proof
    assume h: "hasBodyDecl C ?FD = Some ?FD \<and> (\<forall>tD\<in>set (redecls C ?FD). tD = ?FD)"
    then have "find (\<lambda>tD. tD \<noteq> ?FD) (redecls C ?FD) = None"
      by (simp add: find_None_iff)
    with h assms show "canInterface C P D = Inr DoNothing"
      by (simp add: canInterface_def Let_def)
  qed
  show ?thesis using c1 c2 c3 by blast
qed

lemma canInterface_compares:
  assumes "isPointerType (getType C D)"
    and "\<not> isVariadic C (getParentFunctionOrMethod C D)"
    and "hasBodyDecl C (getParentFunctionOrMethod C D) = Some Definition"
    and "(if Definition = getParentFunctionOrMethod C D
          then find (\<lambda>tD. tD \<noteq> Definition) (redecls C (getParentFunctionOrMethod C D))
          else Some (getParentFunctionOrMethod C D)) = Some Declaration"
    and "i < length (parameters C (getParentFunctionOrMethod C D))"
    and "parameters C (getParentFunctionOrMethod C D) ! i = D"
    and "D \<notin> set (take i (parameters C (getParentFunctionOrMethod C D)))"
    and "i < length (parameters C Declaration)" and "i < length (parameters C Definition)"
    and "getHighest P (getVariableD P (parameters C Definition ! i) True) = Some U"
    and "getHighest P (getVariableD P (parameters C Declaration ! i) False) = Some V"
  shows "canInterface C P D = Inr (if isLt P U V then MakeBoundary else IncreaseCallers)"
proof -
  have ix: "indexOf D (parameters C (getParentFunctionOrMethod C D)) = Some i"
    by (rule indexOf_first) (use assms in auto)
  show ?thesis
    using assms ix by (simp add: canInterface_def Let_def getParamDecl_def)
qed

lemma canInterface_second_parameter:
  "canInterface twoParamContext (sampleInfo sample\<sigma> exprTable twoParamTable) (ParmVarDecl 21)
     = Inr MakeBoundary \<and>
   canInterface twoParamContext (sampleInfo sample\<sigma> exprTable twoParamTable) (ParmVarDecl 20)
     = Inr IncreaseCallers"
  by (simp add: canInterface_def twoParamContext_def interfaceContext_def sampleContext_def
      isPointerType_def hasBodyDecl_def getParamDecl_def sampleInfo_def twoParamTable_def
      getHighest_def sample\<sigma>_def pv0_def pv1_def pv2_def)

text \<open>
  C3. The claim gives a decision for every pointer-typed parameter of a function with a
  body. For the parameter \<open>q\<close> of \<open>void f(); void f(int *q) { \<dots> }\<close> (not variadic,
  with a body and a second declaration) \<open>canInterface\<close> asks the declaration for a
  parameter it does not have and fails the assertion of \<open>getParamDecl\<close>; and where the
  declaration's parameter has no constraint variable, \<open>getHighest\<close> returns null and the
  comparison dereferences it. In neither case is there a decision.
\<close>

theorem canInterface_aborts:
  "isPointerType (getType noPrototypeContext (ParmVarDecl 20)) \<and>
   \<not> isVariadic noPrototypeContext (FunctionDecl 2) \<and>
   hasBodyDecl noPrototypeContext (FunctionDecl 2) = Some (FunctionDecl 2) \<and>
   find (\<lambda>tD. tD \<noteq> FunctionDecl 2) (redecls noPrototypeContext (FunctionDecl 2))
     = Some (FunctionDecl 1) \<and>
   canInterface noPrototypeContext (sampleInfo sample\<sigma> exprTable interfaceTable) (ParmVarDecl 20)
     = Inl AssertionFailure \<and>
   isPointerType (getType interfaceContext (ParmVarDecl 20)) \<and>
   hasBodyDecl interfaceContext (FunctionDecl 2) = Some (FunctionDecl 2) \<and>
   find (\<lambda>tD. tD \<noteq> FunctionDecl 2) (redecls interfaceContext (FunctionDecl 2))
     = Some (FunctionDecl 1) \<and>
   getVariableD (sampleInfo sample\<sigma> exprTable definitionOnlyTable) (ParmVarDecl 10) False = [] \<and>
   canInterface interfaceContext (sampleInfo sample\<sigma> exprTable definitionOnlyTable) (ParmVarDecl 20)
     = Inl NullDereference"
  by (simp add: canInterface_def noPrototypeContext_def interfaceContext_def sampleContext_def
      isPointerType_def hasBodyDecl_def getParamDecl_def sampleInfo_def interfaceTable_def
      definitionOnlyTable_def getHighest_def)








text \<open>
  C10. Visiting a call whose callee is a variadic function declaration leaves the
  rewriter as it was: no text is inserted at any argument.
\<close>

theorem VisitCallExpr_variadic_unchanged:
  "isVariadic C (FunctionDecl f) \<Longrightarrow>
   CastPlacementVisitor_VisitCallExpr C Info (CallExpr (Some (FunctionDecl f)) args) R = Inr R"
  by simp

theorem VisitCallExpr_variadic_unchanged_witness:
  "isVariadic variadicContext (FunctionDecl 1) \<and>
   CastPlacementVisitor_VisitCallExpr variadicContext (sampleInfo sample\<sigma> argExprTable argTable)
     (CallExpr (Some (FunctionDecl 1)) [DeclRefExpr (VarDecl 1)])
     [InsertTextBefore 3 ''x''] = Inr [InsertTextBefore 3 ''x''] \<and>
   CastPlacementVisitor_VisitCallExpr variadicContext (sampleInfo sample\<sigma> argExprTable argTable)
     (CallExpr (Some (FunctionDecl 2)) [DeclRefExpr (VarDecl 1)])
     [InsertTextBefore 3 ''x'']
     = Inr [InsertTextBefore 3 ''x'', InsertTextBefore 0 ''_Assume_bounds_cast<r>('', InsertTextAfter 0 '')'']"
proof -
  have v: "isVariadic variadicContext (FunctionDecl 1)"
    by (simp add: variadicContext_def)
  have other: "CastPlacementVisitor_VisitCallExpr variadicContext (sampleInfo sample\<sigma> argExprTable argTable)
     (CallExpr (Some (FunctionDecl 2)) [DeclRefExpr (VarDecl 1)])
     [InsertTextBefore 3 ''x'']
     = Inr [InsertTextBefore 3 ''x'', InsertTextBefore 0 ''_Assume_bounds_cast<r>('', InsertTextAfter 0 '')'']"
    by (simp add: variadicContext_def sampleContext_def sampleInfo_def sample\<sigma>_def hasBodyDecl_def
        castArgument_def getParamDecl_def isPointerType_def argExprTable_def argTable_def
        getHighest_def pv1_def pv2_def)
  show ?thesis
    using VisitCallExpr_variadic_unchanged [OF v] v other by simp
qed

section \<open>Properties of canWrite and emit\<close>

text \<open>
  For absolute paths whose components hold no separator, \<open>canWrite\<close> accepts a file
  exactly when its path is one of the paths given on the command line, or the components
  of the base directory are, literally, the leading components of the file's path and
  the status of every directory compared on the way can be obtained. The comparison of
  the statuses can therefore only refuse a file, never accept one.
\<close>

lemma sep_free_head:
  "CHR ''/'' \<notin> set x \<Longrightarrow> CHR ''/'' \<notin> set y \<Longrightarrow>
   x @ CHR ''/'' # r = y @ CHR ''/'' # r' \<Longrightarrow> x = y \<and> r = r'"
proof (induction x arbitrary: y)
  case Nil
  then show ?case by (cases y) auto
next
  case (Cons a x)
  then show ?case by (cases y) auto
qed

lemma joinPath_inj:
  "\<forall>c\<in>set xs \<union> set ys. CHR ''/'' \<notin> set c \<Longrightarrow> joinPath xs = joinPath ys \<Longrightarrow> xs = ys"
proof (induction xs arbitrary: ys)
  case Nil
  then show ?case by (cases ys) (auto simp: joinPath_def get_separator_def)
next
  case (Cons x xs)
  show ?case
  proof (cases ys)
    case Nil
    with Cons.prems show ?thesis by (auto simp: joinPath_def get_separator_def)
  next
    case (Cons y ys')
    have eq: "x @ CHR ''/'' # joinPath xs = y @ CHR ''/'' # joinPath ys'"
      using Cons.prems(2) Cons by (simp add: joinPath_def get_separator_def)
    have "x = y \<and> joinPath xs = joinPath ys'"
      using sep_free_head [OF _ _ eq] Cons.prems(1) Cons by auto
    moreover have "\<forall>c\<in>set xs \<union> set ys'. CHR ''/'' \<notin> set c"
      using Cons.prems(1) Cons by auto
    ultimately show ?thesis using Cons.IH [of ys'] Cons by auto
  qed
qed

lemma joinPath_snoc: "joinPath (xs @ [s]) = joinPath xs @ s @ get_separator"
  by (simp add: joinPath_def)

lemma canWrite_loop_char:
  assumes "\<forall>c\<in>set ab \<union> set ap \<union> set bs \<union> set ps. CHR ''/'' \<notin> set c"
    and "length ab = length ap"
  shows "canWrite_loop FS bs ps (pre @ joinPath ab) (pre @ joinPath ap) \<longleftrightarrow>
         ab = ap \<and> prefix bs ps \<and>
         (\<forall>k<length bs. status FS (pre @ joinPath (ab @ take k bs)) \<noteq> None)"
  using assms
proof (induction bs arbitrary: ps ab ap)
  case Nil
  have "pre @ joinPath ab = pre @ joinPath ap \<longleftrightarrow> ab = ap"
    using joinPath_inj [of ab ap] Nil.prems(1) by auto
  then show ?case by (cases ps) (simp_all add: canWrite_finish_def)
next
  case (Cons s1 bs)
  show ?case
  proof (cases ps)
    case Nil
    then show ?thesis by (simp add: canWrite_finish_def)
  next
    case (Cons s2 ps')
    have free: "CHR ''/'' \<notin> set s1" "CHR ''/'' \<notin> set s2"
      using Cons.prems(1) Cons by auto
    then have nsep: "s1 \<noteq> get_separator" "s2 \<noteq> get_separator"
      by (auto simp: get_separator_def)
    have inj: "pre @ joinPath ab = pre @ joinPath ap \<longleftrightarrow> ab = ap"
      using joinPath_inj [of ab ap] Cons.prems(1) by auto
    have IH: "canWrite_loop FS bs ps' (pre @ joinPath (ab @ [s1])) (pre @ joinPath (ap @ [s2])) \<longleftrightarrow>
         ab @ [s1] = ap @ [s2] \<and> prefix bs ps' \<and>
         (\<forall>k<length bs. status FS (pre @ joinPath ((ab @ [s1]) @ take k bs)) \<noteq> None)"
      by (rule Cons.IH) (use Cons.prems Cons in auto)
    have quant: "(\<forall>k<length (s1 # bs). status FS (pre @ joinPath (ab @ take k (s1 # bs))) \<noteq> None) \<longleftrightarrow>
        status FS (pre @ joinPath ab) \<noteq> None \<and>
        (\<forall>k<length bs. status FS (pre @ joinPath ((ab @ [s1]) @ take k bs)) \<noteq> None)"
      (is "?L \<longleftrightarrow> ?R")
    proof
      assume L: ?L
      have "status FS (pre @ joinPath (ab @ take 0 (s1 # bs))) \<noteq> None"
        using L by blast
      moreover have "status FS (pre @ joinPath ((ab @ [s1]) @ take k bs)) \<noteq> None" if "k < length bs" for k
        using L [rule_format, of "Suc k"] that by simp
      ultimately show ?R by simp
    next
      assume R: ?R
      show ?L
      proof (intro allI impI)
        fix k assume "k < length (s1 # bs)"
        then show "status FS (pre @ joinPath (ab @ take k (s1 # bs))) \<noteq> None"
          using R by (cases k) auto
      qed
    qed
    show ?thesis
    proof (cases "status FS (pre @ joinPath ab)")
      case None
      then show ?thesis using Cons quant by simp
    next
      case (Some bst)
      note bst = Some
      show ?thesis
      proof (cases "status FS (pre @ joinPath ap)")
        case None
        then show ?thesis using Cons bst by auto
      next
        case (Some pst)
        show ?thesis
        proof (cases "bst = pst")
          case False
          then have "ab \<noteq> ap" using bst Some by auto
          then show ?thesis using Cons bst Some False by (simp add: canWrite_finish_def)
        next
          case True
          have "canWrite_loop FS (s1 # bs) ps (pre @ joinPath ab) (pre @ joinPath ap) \<longleftrightarrow>
                canWrite_loop FS bs ps' (pre @ joinPath (ab @ [s1])) (pre @ joinPath (ap @ [s2]))"
            using Cons bst Some True nsep by (simp add: joinPath_snoc)
          also have "\<dots> \<longleftrightarrow> ab @ [s1] = ap @ [s2] \<and> prefix bs ps' \<and>
             (\<forall>k<length bs. status FS (pre @ joinPath ((ab @ [s1]) @ take k bs)) \<noteq> None)"
            by (rule IH)
          also have "\<dots> \<longleftrightarrow> ab = ap \<and> prefix (s1 # bs) ps \<and>
             (\<forall>k<length (s1 # bs). status FS (pre @ joinPath (ab @ take k (s1 # bs))) \<noteq> None)"
            using quant bst Cons by auto
          finally show ?thesis .
        qed
      qed
    qed
  qed
qed

lemma canWrite_literal_prefix:
  assumes "path_components FS b = ''/'' # baseRest"
    and "path_components FS filePath = ''/'' # pathRest"
    and "\<forall>c\<in>set baseRest \<union> set pathRest. CHR ''/'' \<notin> set c"
  shows "canWrite FS filePath iof b =
           Inr (filePath \<in> set iof \<or>
                (prefix baseRest pathRest \<and>
                 (\<forall>k<length baseRest. status FS (''//'' @ joinPath (take k baseRest)) \<noteq> None)))"
proof -
  have "canWrite_loop FS baseRest pathRest (''//'' @ joinPath []) (''//'' @ joinPath []) \<longleftrightarrow>
        [] = ([] :: string list) \<and> prefix baseRest pathRest \<and>
        (\<forall>k<length baseRest. status FS (''//'' @ joinPath ([] @ take k baseRest)) \<noteq> None)"
    by (rule canWrite_loop_char) (use assms(3) in auto)
  then have loop: "canWrite_loop FS baseRest pathRest ''//'' ''//'' \<longleftrightarrow>
        prefix baseRest pathRest \<and>
        (\<forall>k<length baseRest. status FS (''//'' @ joinPath (take k baseRest)) \<noteq> None)"
    by (simp add: joinPath_def)
  show ?thesis
    using assms(1,2) loop by (auto simp: canWrite_def get_separator_def count_list_0_iff)
qed

text \<open>
  C7. The claim is that a touched file is written exactly when its path was given on the
  command line or descends, up to symbolic links, from the directory given by
  \<open>--base-dir\<close>. With \<open>--base-dir /link/proj\<close>, where \<open>/link\<close> is a link to \<open>/real\<close>, the
  touched file \<open>/real/proj/x.h\<close> descends from the base directory and is not written;
  with \<open>--base-dir /home/u/proj\<close> the touched file \<open>/home/u/other/y.h\<close> does not descend
  from the base directory and is written, since \<open>emit\<close> removes the last component of the
  base directory before it calls \<open>canWrite\<close>. Neither file is on the command line.
\<close>

theorem emit_base_dir_failures:
  "descends_following_symlinks projectFS ''/real/proj/x.h'' ''/link/proj'' \<and>
   emit projectFS projectPaths (projectEmit ''/link/proj'' ''/real/proj/x.h'') [1] [] = Inr [] \<and>
   \<not> descends_following_symlinks projectFS ''/home/u/other/y.h'' ''/home/u/proj'' \<and>
   emit projectFS projectPaths (projectEmit ''/home/u/proj'' ''/home/u/other/y.h'') [1] []
     = Inr [ToFile ''/home/u/other/y.checked.h'' ''int *p;'']"
  by (simp add: descends_following_symlinks_def emit_def emitFile_def canWrite_def
      projectFS_def projectPaths_def projectEmit_def table_def joinPath_def get_separator_def
      canWrite_finish_def upt_rec)

section \<open>Properties of the iteration order\<close>














end
